theory Spec2Isabelle
  imports Main
begin

text \<open>
  A shallow embedding of \<open>llm_md_parser.py\<close>: the template parser
  (\<open>parse_llm_md\<close> and its helpers), the hierarchy builder, the worksheet generator
  and the worksheet parser (\<open>parse_worksheet_content\<close>), followed by the properties
  proved about them. Exceptions are values of type \<open>error\<close>, dictionaries are maps,
  and lists that the source extends in place are passed in and returned.
\<close>

section \<open>Python strings\<close>

text \<open>
  A Python \<open>str\<close> is modelled as a \<open>string\<close> (a list of 8-bit characters): the
  development covers ASCII text. \<open>isspace\<close> lists the ASCII characters that
  \<open>str.strip()\<close> removes and that the regular-expression class \<open>\s\<close> matches.
\<close>

definition isspace :: "char \<Rightarrow> bool" where
  "isspace c = (c \<in> set [CHR 0x09, CHR 0x0A, CHR 0x0B, CHR 0x0C, CHR 0x0D,
                            CHR 0x1C, CHR 0x1D, CHR 0x1E, CHR 0x1F, CHR 0x20])"

definition strip :: "string \<Rightarrow> string" where
  "strip s = rev (dropWhile isspace (rev (dropWhile isspace s)))"

text \<open>\<open>s.strip(chars)\<close>\<close>

definition strip_chars :: "string \<Rightarrow> string \<Rightarrow> string" where
  "strip_chars chars s =
     rev (dropWhile (\<lambda>c. c \<in> set chars) (rev (dropWhile (\<lambda>c. c \<in> set chars) s)))"

text \<open>\<open>s.split(d)\<close> for a one-character separator: never returns the empty list.\<close>

fun split_on :: "char \<Rightarrow> string \<Rightarrow> string list" where
  "split_on d [] = [[]]"
| "split_on d (c # cs) =
     (if c = d then [] # split_on d cs
      else (case split_on d cs of p # ps \<Rightarrow> (c # p) # ps | [] \<Rightarrow> [[c]]))"

text \<open>\<open>sep.join(xs)\<close>\<close>

fun join :: "string \<Rightarrow> string list \<Rightarrow> string" where
  "join sep [] = []"
| "join sep [x] = x"
| "join sep (x # y # ys) = x @ sep @ join sep (y # ys)"

definition startswith :: "string \<Rightarrow> string \<Rightarrow> bool" where
  "startswith p s = (take (length p) s = p)"

definition endswith :: "string \<Rightarrow> string \<Rightarrow> bool" where
  "endswith p s = (length p \<le> length s \<and> drop (length s - length p) s = p)"

text \<open>\<open>sub in s\<close>\<close>

fun contains :: "string \<Rightarrow> string \<Rightarrow> bool" where
  "contains sub [] = (sub = [])"
| "contains sub (c # cs) = (startswith sub (c # cs) \<or> contains sub cs)"

definition lower_char :: "char \<Rightarrow> char" where
  "lower_char c =
     (if 65 \<le> (of_char c :: nat) \<and> (of_char c :: nat) \<le> 90
      then char_of ((of_char c :: nat) + 32) else c)"

definition lower :: "string \<Rightarrow> string" where
  "lower s = map lower_char s"

definition isdigit_char :: "char \<Rightarrow> bool" where
  "isdigit_char c = (c \<in> set ''0123456789'')"

text \<open>\<open>s.isdigit()\<close>: false on the empty string.\<close>

definition isdigit :: "string \<Rightarrow> bool" where
  "isdigit s = (s \<noteq> [] \<and> list_all isdigit_char s)"

text \<open>The value of a run of decimal digits, most significant digit first.\<close>

definition digits_value :: "string \<Rightarrow> nat" where
  "digits_value s = foldl (\<lambda>acc c. 10 * acc + ((of_char c :: nat) - 48)) 0 s"

text \<open>\<open>str(n)\<close> for a natural number.\<close>

definition digit_char :: "nat \<Rightarrow> char" where
  "digit_char d = char_of (48 + d)"

fun str_nat :: "nat \<Rightarrow> string" where
  "str_nat n = (if n < 10 then [digit_char n] else str_nat (n div 10) @ [digit_char (n mod 10)])"

declare str_nat.simps [simp del]

section \<open>Errors\<close>

text \<open>
  Every exception the parser can raise is a \<open>ValueError\<close>; the constructors tell the
  raise sites apart and \<open>message\<close> renders the text the exception carries.
  \<^item> \<open>InvalidHeaderFormat line\<close>: line 84, the header body fails the grammar.
  \<^item> \<open>InvalidCardinalityFormat s\<close>: line 117, \<open>s\<close> is the bracket body.
  \<^item> \<open>IntLiteralError s\<close>: \<open>int(s)\<close> of line 111 or 115 rejects \<open>s\<close>.
  \<^item> \<open>IntDigitsLimit n\<close>: \<open>int\<close> refuses a literal of \<open>n\<close> digits as too long.
  \<^item> \<open>UnpackError n\<close>: the tuple assignment of line 114 got \<open>n \<noteq> 2\<close> parts.
  \<^item> \<open>SectionNotFound name\<close>: line 27.
\<close>

datatype error =
    InvalidHeaderFormat string
  | InvalidCardinalityFormat string
  | IntLiteralError string
  | IntDigitsLimit nat
  | UnpackError nat
  | SectionNotFound string

text \<open>
  The message of \<open>IntLiteralError\<close> quotes the literal as \<open>repr\<close> does for a string
  without quotes, backslashes or control characters.
\<close>

fun message :: "error \<Rightarrow> string" where
  "message (InvalidHeaderFormat line) = ''Invalid header format: '' @ line"
| "message (InvalidCardinalityFormat s) = ''Invalid cardinality format: '' @ s"
| "message (IntLiteralError s) =
     ''invalid literal for int() with base 10: '' @ [CHR 0x27] @ s @ [CHR 0x27]"
| "message (IntDigitsLimit n) =
     ''Exceeds the limit (4300 digits) for integer string conversion: value has '' @
     str_nat n @ '' digits; use sys.set_int_max_str_digits() to increase the limit''"
| "message (UnpackError n) =
     (if n < 2 then ''not enough values to unpack (expected 2, got '' @ str_nat n @ '')''
      else ''too many values to unpack (expected 2)'')"
| "message (SectionNotFound name) =
     ''Section '' @ [CHR 0x27] @ name @ [CHR 0x27] @ '' not found in template''"

section \<open>Header records\<close>

text \<open>
  The cardinality dictionaries of \<open>_parse_cardinality\<close>: \<open>{'type': 'unlimited', ...}\<close>,
  \<open>{'type': 'fixed', 'count': c}\<close> and \<open>{'type': 'range', 'min': a, 'max': b}\<close>.
\<close>

datatype cardinality = Unlimited | Fixed int | Range int int

text \<open>The dictionary built by \<open>_parse_header_line\<close>; \<open>children\<close> is filled by the
  hierarchy builder.\<close>

datatype header =
  Header (level: nat) (name: string) (cardinality: cardinality) (required: bool)
         (notes_text: string) (children: "header list")

text \<open>An entry of the parsed structure: a worksheet section with its flat content, or a
  header that stands outside every section.\<close>

datatype item = WorksheetSection string "header list" | HeaderItem header

section \<open>Cardinality and header grammar\<close>

text \<open>
  \<open>int(s)\<close> in base 10 on ASCII text. The characters that \<open>int\<close> skips around the
  number are those of C's \<open>isspace\<close> (\<open>int_space\<close>): unlike \<open>str.strip()\<close> it does
  not skip the separators 0x1C to 0x1F. One sign is allowed, and the digits may be grouped
  by single underscores. \<open>int\<close> reads the run of digits and underscores that follows the
  sign, refuses it when it is not well grouped, then refuses it as too long when it has
  more digits than \<open>max_str_digits\<close> (4300, the default of
  \<open>sys.get_int_max_str_digits()\<close> in CPython 3.11 and later), and only then refuses
  a literal in which something follows the run.
\<close>

definition int_space :: "char \<Rightarrow> bool" where
  "int_space c = (c \<in> set [CHR 0x09, CHR 0x0A, CHR 0x0B, CHR 0x0C, CHR 0x0D, CHR 0x20])"

definition max_str_digits :: nat where
  "max_str_digits = 4300"

fun digit_groups :: "string \<Rightarrow> bool" where
  "digit_groups [] = False"
| "digit_groups [c] = isdigit_char c"
| "digit_groups (c # d # r) =
     (isdigit_char c \<and> (if d = CHR ''_'' then digit_groups r else digit_groups (d # r)))"

definition py_int :: "string \<Rightarrow> error + int" where
  "py_int s =
     (let t = rev (dropWhile int_space (rev (dropWhile int_space s)));
          neg = (t \<noteq> [] \<and> hd t = CHR ''-'');
          body = (if t \<noteq> [] \<and> (hd t = CHR ''-'' \<or> hd t = CHR ''+'') then tl t else t);
          run = takeWhile (\<lambda>c. isdigit_char c \<or> c = CHR ''_'') body;
          digits = filter (\<lambda>c. c \<noteq> CHR ''_'') run
      in if \<not> digit_groups run then Inl (IntLiteralError s)
         else if max_str_digits < length digits then Inl (IntDigitsLimit (length digits))
         else if run \<noteq> body then Inl (IntLiteralError s)
         else Inr ((if neg then - 1 else 1) * int (digits_value digits)))"

definition parse_cardinality :: "string \<Rightarrow> error + cardinality" where
  "parse_cardinality cardinality_str =
     (let s = strip_chars ''[]'' cardinality_str
      in if s = ''*'' then Inr Unlimited
         else if isdigit s then
           (case py_int s of Inl e \<Rightarrow> Inl e | Inr count \<Rightarrow> Inr (Fixed count))
         else if CHR ''-'' \<in> set s then
           (case split_on CHR ''-'' s of
              [min_val, max_val] \<Rightarrow>
                (case py_int min_val of
                   Inl e \<Rightarrow> Inl e
                 | Inr mn \<Rightarrow>
                     (case py_int max_val of
                        Inl e \<Rightarrow> Inl e
                      | Inr mx \<Rightarrow> Inr (Range mn mx)))
            | parts \<Rightarrow> Inl (UnpackError (length parts)))
         else Inl (InvalidCardinalityFormat s))"

text \<open>
  The match of the pattern of line 80,
  \<^verbatim>\<open>^([^|\[\$]+?)(?:\s*(\[[^\]]*\]))?(?:\s*(\$))?(?:\s*\|\s*(.*))?$\<close>,
  on a string without a newline (the content of one line), in the order in which the
  backtracking matcher explores it. Each optional group is greedy: it is tried first and
  skipped only when the rest of the pattern fails after it. Inside a group nothing can be
  matched in two ways (\<open>\s*\<close> is followed by a character that is not whitespace, and the
  bracket body stops at the first \<open>]\<close>).

  \<open>opt_notes\<close> is the last group and the end anchor; its result is group 4.
\<close>

definition opt_notes :: "string \<Rightarrow> string option option" where
  "opt_notes s =
     (case dropWhile isspace s of
        c # r \<Rightarrow> if c = CHR ''|'' then Some (Some (dropWhile isspace r)) else None
      | [] \<Rightarrow> if s = [] then Some None else None)"

text \<open>The required marker (group 3) followed by the rest of the pattern.\<close>

definition opt_required :: "string \<Rightarrow> (bool \<times> string option) option" where
  "opt_required s =
     (case (case dropWhile isspace s of
              c # r \<Rightarrow> if c = CHR ''$'' then map_option (Pair True) (opt_notes r) else None
            | [] \<Rightarrow> None) of
        Some m \<Rightarrow> Some m
      | None \<Rightarrow> map_option (Pair False) (opt_notes s))"

text \<open>The cardinality bracket (group 2, brackets included) followed by the rest.\<close>

definition opt_cardinality :: "string \<Rightarrow> (string option \<times> bool \<times> string option) option" where
  "opt_cardinality s =
     (case (case dropWhile isspace s of
              c # r \<Rightarrow>
                if c = CHR ''['' \<and> CHR '']'' \<in> set r
                then map_option
                       (Pair (Some (c # takeWhile (\<lambda>x. x \<noteq> CHR '']'') r @ '']'')))
                       (opt_required (tl (dropWhile (\<lambda>x. x \<noteq> CHR '']'') r)))
                else None
            | [] \<Rightarrow> None) of
        Some m \<Rightarrow> Some m
      | None \<Rightarrow> map_option (Pair None) (opt_required s))"

text \<open>
  Group 1 is lazy: it takes one more character (none of \<open>|\<close>, \<open>[\<close>, \<open>$\<close>) at a time
  and stops as soon as the rest of the pattern matches. \<open>acc\<close> is what the group has
  consumed so far.
\<close>

fun lazy_name ::
  "string \<Rightarrow> string \<Rightarrow> (string \<times> string option \<times> bool \<times> string option) option" where
  "lazy_name acc [] = None"
| "lazy_name acc (c # r) =
     (if c \<in> set ''|[$'' then None
      else (case opt_cardinality r of
              Some m \<Rightarrow> Some (acc @ [c], m)
            | None \<Rightarrow> lazy_name (acc @ [c]) r))"

definition header_match ::
  "string \<Rightarrow> (string \<times> string option \<times> bool \<times> string option) option" where
  "header_match content = lazy_name [] content"

definition parse_header_line :: "string \<Rightarrow> error + header" where
  "parse_header_line line =
     (let lvl = length (takeWhile (\<lambda>c. c = CHR ''#'') line);
          content = strip (drop lvl line)
      in case header_match content of
           None \<Rightarrow> Inl (InvalidHeaderFormat line)
         | Some (g1, g2, g3, g4) \<Rightarrow>
             (let nm = strip g1;
                  cardinality_str = (case g2 of Some b \<Rightarrow> b | None \<Rightarrow> ''[1]'');
                  req = g3;
                  nts = (case g4 of Some n \<Rightarrow> n | None \<Rightarrow> [])
              in case parse_cardinality cardinality_str of
                   Inl e \<Rightarrow> Inl e
                 | Inr crd \<Rightarrow> Inr (Header lvl nm crd req nts [])))"

section \<open>Template structure\<close>

text \<open>
  \<open>_parse_template_structure\<close>. \<open>current_section\<close> of the source is a reference to
  the section dictionary last appended to \<open>structure\<close>; here it is the index of that
  entry, and appending to its content updates the entry in place.
\<close>

fun append_content :: "item \<Rightarrow> header \<Rightarrow> item" where
  "append_content (WorksheetSection n content) h = WorksheetSection n (content @ [h])"
| "append_content (HeaderItem x) h = HeaderItem x"

fun parse_template_lines :: "string list \<Rightarrow> item list \<Rightarrow> nat option \<Rightarrow> error + item list" where
  "parse_template_lines [] structure current_section = Inr structure"
| "parse_template_lines (l # ls) structure current_section =
     (let line = strip l
      in if line = [] then parse_template_lines ls structure current_section
         else if startswith ''- '' line then
           parse_template_lines ls
             (structure @ [WorksheetSection (strip (drop 2 line)) []])
             (Some (length structure))
         else if startswith ''#'' line then
           (case parse_header_line line of
              Inl e \<Rightarrow> Inl e
            | Inr parsed_header \<Rightarrow>
                (case current_section of
                   Some i \<Rightarrow>
                     parse_template_lines ls
                       (structure[i := append_content (structure ! i) parsed_header])
                       current_section
                 | None \<Rightarrow>
                     parse_template_lines ls (structure @ [HeaderItem parsed_header])
                       current_section))
         else parse_template_lines ls structure current_section)"

definition parse_template_structure :: "string list \<Rightarrow> error + item list" where
  "parse_template_structure lines = parse_template_lines lines [] None"

text \<open>\<open>_find_section_structure\<close>: the content of the first section with that name.\<close>

fun find_section_structure :: "item list \<Rightarrow> string \<Rightarrow> header list option" where
  "find_section_structure [] section_name = None"
| "find_section_structure (WorksheetSection n content # rest) section_name =
     (if n = section_name then Some content else find_section_structure rest section_name)"
| "find_section_structure (HeaderItem h # rest) section_name =
     find_section_structure rest section_name"

definition filter_content_structure :: "item list \<Rightarrow> item list" where
  "filter_content_structure structure = structure"

section \<open>Hierarchy builder\<close>

text \<open>
  \<open>_build_hierarchy\<close>. The header dictionaries are shared by reference: appending to
  \<open>stack[-1]['children']\<close> changes a record that \<open>root_items\<close> or the children list of
  another record already holds. The records are therefore addressed by their position
  in the flat input, and the store \<open>kids\<close> gives, for each position, the positions
  appended to its \<open>children\<close> list, in order. The stack is kept with its top
  (\<open>stack[-1]\<close>) first.
\<close>

record hierarchy_state =
  kids :: "nat list list"
  root_items :: "nat list"
  stack :: "nat list"

text \<open>\<open>while stack and stack[-1]['level'] >= level: stack.pop()\<close>\<close>

fun pop_stack :: "header list \<Rightarrow> nat \<Rightarrow> nat list \<Rightarrow> nat list" where
  "pop_stack structure lvl [] = []"
| "pop_stack structure lvl (t # st) =
     (if level (structure ! t) \<ge> lvl then pop_stack structure lvl st else t # st)"

text \<open>One turn of the loop, for the record at position \<open>i\<close>.\<close>

definition hierarchy_step :: "header list \<Rightarrow> hierarchy_state \<Rightarrow> nat \<Rightarrow> hierarchy_state" where
  "hierarchy_step structure s i =
     (let lvl = level (structure ! i);
          stk = pop_stack structure lvl (stack s);
          s' = (case stk of
                  p # _ \<Rightarrow> s\<lparr>kids := (kids s)[p := kids s ! p @ [i]]\<rparr>
                | [] \<Rightarrow> s\<lparr>root_items := root_items s @ [i]\<rparr>)
      in s'\<lparr>stack := i # stk\<rparr>)"

definition hierarchy_store :: "header list \<Rightarrow> hierarchy_state" where
  "hierarchy_store structure =
     fold (\<lambda>i s. hierarchy_step structure s i) [0..<length structure]
       \<lparr>kids = replicate (length structure) [], root_items = [], stack = []\<rparr>"

text \<open>
  Reading the store back as trees. A child always stands after its parent in the input,
  so the records are completed from the last position to the first, each one receiving
  the completed records of its children.
\<close>

fun add_children :: "header \<Rightarrow> header list \<Rightarrow> header" where
  "add_children (Header l n c r t ch) new = Header l n c r t (ch @ new)"

definition materialise :: "header list \<Rightarrow> nat list list \<Rightarrow> header list" where
  "materialise structure ks =
     foldr (\<lambda>i built. built[i := add_children (structure ! i) (map (\<lambda>c. built ! c) (ks ! i))])
       [0..<length structure] structure"

definition build_hierarchy :: "header list \<Rightarrow> header list" where
  "build_hierarchy structure =
     (let s = hierarchy_store structure;
          built = materialise structure (kids s)
      in map (\<lambda>r. built ! r) (root_items s))"

section \<open>Worksheet generator\<close>

text \<open>
  Lines 184 to 189: the number of instances of a record. \<open>quantities\<close> is the
  dictionary of overrides (\<open>None\<close> is replaced by the empty dictionary at line 18).
\<close>

definition effective_count :: "header \<Rightarrow> (string \<rightharpoonup> int) \<Rightarrow> string \<Rightarrow> int" where
  "effective_count item quantities path_key =
     (case cardinality item of
        Unlimited \<Rightarrow> (case quantities path_key of Some n \<Rightarrow> n | None \<Rightarrow> 2)
      | Range mn mx \<Rightarrow> (case quantities path_key of Some n \<Rightarrow> n | None \<Rightarrow> mn)
      | Fixed c \<Rightarrow> c)"

text \<open>
  \<open>_generate_item_output\<close>: \<open>result\<close> is the list of lines, returned extended.
  \<open>range(count)\<close> is empty for a count below 1.
\<close>

function generate_item_output ::
  "header \<Rightarrow> string list \<Rightarrow> (string \<rightharpoonup> int) \<Rightarrow> string list \<Rightarrow> string list" where
  "generate_item_output item result quantities path =
     (let current_path = path @ [name item];
          path_key = join ''.'' current_path;
          count = effective_count item quantities path_key
      in if count = 1 \<and> children item = [] then
           (let header = replicate (level item) CHR ''#'' @ '' '' @ name item @ '' | '';
                result = result @ [header]
            in if level item = 1 then result @ [[]] else result)
         else if count = 1 \<and> children item \<noteq> [] then
           (let header = replicate (level item) CHR ''#'' @ '' '' @ name item;
                result = result @ [header];
                result = (if level item = 1 then result @ [[]] else result)
            in fold (\<lambda>child r. generate_item_output child r quantities current_path)
                 (children item) result)
         else
           fold (\<lambda>i r.
                   if children item \<noteq> [] then
                     (let header =
                            (if level item = 2 then
                               (if contains ''chapter'' (lower (name item))
                                then replicate (level item) CHR ''#'' @ '' '' @ name item @
                                     '' '' @ str_nat (i + 1)
                                else replicate (level item) CHR ''#'' @ '' '' @ name item)
                             else replicate (level item) CHR ''#'' @ '' '' @ name item);
                          r = r @ [header];
                          r = fold (\<lambda>child r. generate_item_output child r quantities current_path)
                                (children item) r
                      in if level item = 1 then r @ [[]] else r)
                   else r @ [replicate (level item) CHR ''#'' @ '' '' @ name item @ '' | ''])
             [0..<nat count] result)"
  by pat_completeness auto

termination
proof -
  have smaller: "size child < size it" if "child \<in> set (children it)"
    for child it :: header
    using that by (cases it) (auto simp: less_Suc_eq_le dest: size_list_estimation')
  show ?thesis
    by (relation "measure (\<lambda>(item, result, quantities, path). size item)")
       (auto simp: smaller)
qed

declare generate_item_output.simps [simp del]

text \<open>
  The lines one record contributes, in closed form; the proofs below show that
  \<open>generate_item_output\<close> appends exactly these. \<open>header_text\<close> is the container
  header, \<open>leaf_line\<close> the field line, \<open>instance_header\<close> the header of instance
  \<open>i\<close> in the loop of line 210, \<open>blank_after\<close> the extra line of level 1,
  \<open>instance_block\<close> what one turn of that loop appends, and \<open>instances\<close> the whole
  output for a given count (lines 192 to 233).
\<close>

definition header_text :: "header \<Rightarrow> string" where
  "header_text item = replicate (level item) CHR ''#'' @ '' '' @ name item"

definition leaf_line :: "header \<Rightarrow> string" where
  "leaf_line item = header_text item @ '' | ''"

definition instance_header :: "header \<Rightarrow> nat \<Rightarrow> string" where
  "instance_header item i =
     (if level item = 2 \<and> contains ''chapter'' (lower (name item))
      then header_text item @ '' '' @ str_nat (i + 1) else header_text item)"

definition blank_after :: "header \<Rightarrow> string list" where
  "blank_after item = (if level item = 1 then [[]] else [])"

definition items_lines :: "header list \<Rightarrow> (string \<rightharpoonup> int) \<Rightarrow> string list \<Rightarrow> string list" where
  "items_lines items quantities path =
     concat (map (\<lambda>it. generate_item_output it [] quantities path) items)"

definition children_lines :: "header \<Rightarrow> (string \<rightharpoonup> int) \<Rightarrow> string list \<Rightarrow> string list" where
  "children_lines item quantities path =
     items_lines (children item) quantities (path @ [name item])"

definition instance_block ::
  "header \<Rightarrow> (string \<rightharpoonup> int) \<Rightarrow> string list \<Rightarrow> nat \<Rightarrow> string list" where
  "instance_block item quantities path i =
     (if children item = [] then [leaf_line item]
      else [instance_header item i] @ children_lines item quantities path @ blank_after item)"

definition instances ::
  "header \<Rightarrow> int \<Rightarrow> (string \<rightharpoonup> int) \<Rightarrow> string list \<Rightarrow> string list" where
  "instances item count quantities path =
     (if count = 1 then
        (if children item = [] then [leaf_line item] @ blank_after item
         else [header_text item] @ blank_after item @ children_lines item quantities path)
      else concat (map (instance_block item quantities path) [0..<nat count]))"

text \<open>
  \<open>_generate_worksheet\<close>. Only the content of a worksheet section goes through the
  hierarchy builder; a header outside a section is generated as it stands.
\<close>

definition generate_worksheet :: "item list \<Rightarrow> (string \<rightharpoonup> int) \<Rightarrow> string" where
  "generate_worksheet structure quantities =
     join [CHR 0x0A]
       (fold (\<lambda>it result.
                case it of
                  WorksheetSection section_name content \<Rightarrow>
                    (let result = (if result \<noteq> [] then result @ [[]] else result);
                         result = result @ [''# '' @ section_name];
                         result = result @ [''---''];
                         hierarchy = build_hierarchy content
                     in fold (\<lambda>content_item r. generate_item_output content_item r quantities [])
                          hierarchy result)
                | HeaderItem h \<Rightarrow> generate_item_output h result quantities [])
          structure [])"

text \<open>
  \<open>parse_llm_md\<close>. \<open>if section\<close> holds for a string that is given and not empty;
  \<open>if not section_structure\<close> holds for \<open>None\<close> and for the empty list. The content of
  a section is a list of headers, which \<open>_generate_worksheet\<close> then meets as headers
  outside a section.
\<close>

definition parse_llm_md :: "string \<Rightarrow> string option \<Rightarrow> (string \<rightharpoonup> int) \<Rightarrow> error + string" where
  "parse_llm_md template section quantities =
     (let lines = split_on (CHR 0x0A) (strip template)
      in case parse_template_structure lines of
           Inl e \<Rightarrow> Inl e
         | Inr parsed_structure \<Rightarrow>
             (if section \<noteq> None \<and> section \<noteq> Some [] then
                (case find_section_structure parsed_structure (the section) of
                   None \<Rightarrow> Inl (SectionNotFound (the section))
                 | Some section_structure \<Rightarrow>
                     if section_structure = [] then Inl (SectionNotFound (the section))
                     else Inr (generate_worksheet (map HeaderItem section_structure) quantities))
              else Inr (generate_worksheet (filter_content_structure parsed_structure)
                          quantities)))"

section \<open>Worksheet parser\<close>

text \<open>The dictionary of one parsed section (\<open>field_values\<close> is its entry
  \<open>'fields'\<close>), and the local variables of \<open>parse_worksheet_content\<close>.\<close>

record parsed_section =
  title :: string
  content :: string
  field_values :: "string \<rightharpoonup> string"

record parser_state =
  sections :: "string \<rightharpoonup> parsed_section"
  current_section :: "parsed_section option"
  current_content :: "string list"
  current_field :: "string option"
  current_field_content :: "string list"

text \<open>
  The match of the pattern of line 295, \<^verbatim>\<open>^(#+)\s*(.+?)\s*\|\s*(.*)$\<close>, on a line
  without a newline; the result is group 2. \<open>field_tail\<close> is the part after group 2,
  which matches when a \<open>|\<close> follows the whitespace. Group 2 is lazy (\<open>lazy_field\<close>,
  with \<open>acc\<close> what it has consumed), the whitespace before it and the run of \<open>#\<close>
  are greedy: they give characters back one at a time when the rest fails.
\<close>

definition field_tail :: "string \<Rightarrow> bool" where
  "field_tail r = (case dropWhile isspace r of c # _ \<Rightarrow> c = CHR ''|'' | [] \<Rightarrow> False)"

fun lazy_field :: "string \<Rightarrow> string \<Rightarrow> string option" where
  "lazy_field acc [] = None"
| "lazy_field acc (c # r) =
     (if field_tail r then Some (acc @ [c]) else lazy_field (acc @ [c]) r)"

fun greedy_space :: "string \<Rightarrow> string option" where
  "greedy_space [] = lazy_field [] []"
| "greedy_space (c # r) =
     (if isspace c
      then (case greedy_space r of Some g \<Rightarrow> Some g | None \<Rightarrow> lazy_field [] (c # r))
      else lazy_field [] (c # r))"

fun greedy_hashes :: "string \<Rightarrow> string option" where
  "greedy_hashes [] = greedy_space []"
| "greedy_hashes (c # r) =
     (if c = CHR ''#''
      then (case greedy_hashes r of Some g \<Rightarrow> Some g | None \<Rightarrow> greedy_space (c # r))
      else greedy_space (c # r))"

definition field_match :: "string \<Rightarrow> string option" where
  "field_match line =
     (case line of c # r \<Rightarrow> if c = CHR ''#'' then greedy_hashes r else None | [] \<Rightarrow> None)"

text \<open>
  The assignment \<open>current_section['fields'][current_field] = field_content\<close> of lines
  290 to 292, 305 to 307 and 335 to 337, when its guard holds: the field name is set and
  not empty, and a section is open. \<open>save_field\<close> performs it.
\<close>

definition pending_commit :: "parser_state \<Rightarrow> (string \<times> string) option" where
  "pending_commit st =
     (case current_field st of
        Some f \<Rightarrow>
          if f \<noteq> [] \<and> current_section st \<noteq> None
          then Some (f, strip (join [CHR 0x0A] (current_field_content st)))
          else None
      | None \<Rightarrow> None)"

definition save_field :: "parser_state \<Rightarrow> parser_state" where
  "save_field st =
     (case pending_commit st of
        Some (f, field_content) \<Rightarrow>
          st\<lparr>current_section :=
               map_option (\<lambda>sec. sec\<lparr>field_values := (field_values sec)(f \<mapsto> field_content)\<rparr>)
                 (current_section st)\<rparr>
      | None \<Rightarrow> st)"

text \<open>\<open>_finalize_section\<close>, called only while a section is open.\<close>

definition finalize_section :: "parser_state \<Rightarrow> parser_state" where
  "finalize_section st =
     (let st = save_field st
      in case current_section st of
           Some sec \<Rightarrow>
             (let sec = sec\<lparr>content := join [CHR 0x0A] (current_content st)\<rparr>
              in st\<lparr>current_section := Some sec,
                    sections := (sections st)(title sec \<mapsto> sec)\<rparr>)
         | None \<Rightarrow> st)"

text \<open>Lines 270 to 283: a section header; \<open>line\<close> is stripped, \<open>next_line\<close> is not.\<close>

definition open_section :: "parser_state \<Rightarrow> string \<Rightarrow> string \<Rightarrow> parser_state" where
  "open_section st line next_line =
     (let st = (if current_section st \<noteq> None then finalize_section st else st);
          section_title = strip (drop 2 line)
      in st\<lparr>current_section := Some \<lparr>title = section_title, content = [], field_values = Map.empty\<rparr>,
            current_content := [line, next_line],
            current_field := None,
            current_field_content := []\<rparr>)"

text \<open>Lines 288 to 300: a header that ends with \<open>|\<close>.\<close>

definition field_header :: "parser_state \<Rightarrow> string \<Rightarrow> parser_state" where
  "field_header st line =
     (let st = save_field st
      in case field_match line of
           Some g \<Rightarrow>
             st\<lparr>current_field := Some (strip g),
                current_field_content := [],
                current_content := current_content st @ [line]\<rparr>
         | None \<Rightarrow> st)"

text \<open>Lines 303 to 311: any other header.\<close>

definition regular_header :: "parser_state \<Rightarrow> string \<Rightarrow> parser_state" where
  "regular_header st line =
     (let st = (case pending_commit st of
                  Some c \<Rightarrow> (save_field st)\<lparr>current_field := None, current_field_content := []\<rparr>
                | None \<Rightarrow> st)
      in st\<lparr>current_content := current_content st @ [line]\<rparr>)"

text \<open>Lines 314 to 317: a line of content.\<close>

definition content_line :: "parser_state \<Rightarrow> string \<Rightarrow> parser_state" where
  "content_line st line =
     (let st = st\<lparr>current_content := current_content st @ [line]\<rparr>
      in if current_field st \<noteq> None \<and> current_field st \<noteq> Some []
         then st\<lparr>current_field_content := current_field_content st @ [line]\<rparr>
         else st)"

text \<open>The test of line 269, on the line at hand and the lines after it.\<close>

definition section_start :: "string \<Rightarrow> string list \<Rightarrow> bool" where
  "section_start line rest =
     (startswith ''# '' line \<and> rest \<noteq> [] \<and> strip (hd rest) = ''---'')"

text \<open>The loop of lines 265 to 319, on the lines from index \<open>i\<close> on.\<close>

fun scan :: "string list \<Rightarrow> parser_state \<Rightarrow> parser_state" where
  "scan [] st = st"
| "scan (l # rest) st =
     (let line = strip l
      in if section_start line rest then scan (tl rest) (open_section st line (hd rest))
         else if startswith ''#'' line \<and> endswith ''|'' line then
           scan rest (field_header st line)
         else if startswith ''#'' line then scan rest (regular_header st line)
         else scan rest (content_line st line))"

definition initial_state :: parser_state where
  "initial_state =
     \<lparr>sections = Map.empty, current_section = None, current_content = [],
      current_field = None, current_field_content = []\<rparr>"

text \<open>
  The value returned by \<open>parse_worksheet_content\<close>: the dictionary of all sections, or
  with a section name that is given and not empty, that section or the empty dictionary.
\<close>

datatype worksheet_result =
    AllSections "string \<rightharpoonup> parsed_section"
  | OneSection parsed_section
  | EmptyRecord

definition parse_worksheet_content :: "string \<Rightarrow> string option \<Rightarrow> worksheet_result" where
  "parse_worksheet_content worksheet_content section_name =
     (let lines = split_on (CHR 0x0A) (strip worksheet_content);
          st = scan lines initial_state;
          st = (if current_section st \<noteq> None then finalize_section st else st)
      in if section_name \<noteq> None \<and> section_name \<noteq> Some [] then
           (case sections st (the section_name) of
              Some sec \<Rightarrow> OneSection sec
            | None \<Rightarrow> EmptyRecord)
         else AllSections (sections st))"

section \<open>Notions used to state and prove the claims\<close>

text \<open>
  The position of the nearest record before position \<open>i\<close> whose level is strictly
  smaller than the level of the record at \<open>i\<close>, if there is one.
\<close>

definition nearest_smaller :: "header list \<Rightarrow> nat \<Rightarrow> nat option" where
  "nearest_smaller structure i =
     (case filter (\<lambda>j. level (structure ! j) < level (structure ! i)) (rev [0..<i]) of
        [] \<Rightarrow> None
      | j # _ \<Rightarrow> Some j)"

text \<open>
  The invariant of the loop of \<open>_build_hierarchy\<close> after \<open>k\<close> records: the stack
  holds the last record and, below each entry, its nearest smaller record
  (\<open>stack_chain\<close>); the roots and the children lists are those of the first \<open>k\<close>
  records.
\<close>

fun stack_chain :: "header list \<Rightarrow> nat list \<Rightarrow> bool" where
  "stack_chain structure [] = True"
| "stack_chain structure [t] = (nearest_smaller structure t = None)"
| "stack_chain structure (t # u # r) =
     (nearest_smaller structure t = Some u \<and> stack_chain structure (u # r))"

definition hierarchy_inv :: "header list \<Rightarrow> nat \<Rightarrow> hierarchy_state \<Rightarrow> bool" where
  "hierarchy_inv structure k s =
     (root_items s = filter (\<lambda>i. nearest_smaller structure i = None) [0..<k] \<and>
      length (kids s) = length structure \<and>
      (\<forall>p < length structure.
         kids s ! p = filter (\<lambda>i. nearest_smaller structure i = Some p) [0..<k]) \<and>
      stack_chain structure (stack s) \<and>
      (case stack s of [] \<Rightarrow> k = 0 | t # _ \<Rightarrow> Suc t = k))"

text \<open>
  The assignments to \<open>current_section['fields']\<close>, as pairs of field name and value, in
  the order in which the scan makes them. \<open>committed st\<close> is the assignment made on
  leaving state \<open>st\<close> through a header or through \<open>_finalize_section\<close>, if its guard
  holds. \<open>commit_log lines st cur\<close> follows the loop on \<open>lines\<close> from \<open>st\<close> and returns,
  for every section that is finalized, its title with the assignments made during its
  lifetime; \<open>cur\<close> holds those already made to the section open in \<open>st\<close>.
\<close>

definition committed :: "parser_state \<Rightarrow> (string \<times> string) list" where
  "committed st = (case pending_commit st of Some kv \<Rightarrow> [kv] | None \<Rightarrow> [])"

definition closing_entry ::
  "parser_state \<Rightarrow> (string \<times> string) list \<Rightarrow> (string \<times> (string \<times> string) list) list" where
  "closing_entry st cur =
     (case current_section st of
        Some sec \<Rightarrow> [(title sec, cur @ committed st)]
      | None \<Rightarrow> [])"

fun commit_log ::
  "string list \<Rightarrow> parser_state \<Rightarrow> (string \<times> string) list \<Rightarrow>
   (string \<times> (string \<times> string) list) list" where
  "commit_log [] st cur = closing_entry st cur"
| "commit_log (l # rest) st cur =
     (let line = strip l
      in if section_start line rest then
           closing_entry st cur @ commit_log (tl rest) (open_section st line (hd rest)) []
         else if startswith ''#'' line \<and> endswith ''|'' line then
           commit_log rest (field_header st line) (cur @ committed st)
         else if startswith ''#'' line then
           commit_log rest (regular_header st line) (cur @ committed st)
         else commit_log rest (content_line st line) cur)"

text \<open>The state after the loop and the final call of \<open>_finalize_section\<close>.\<close>

definition finish :: "parser_state \<Rightarrow> parser_state" where
  "finish st = (if current_section st \<noteq> None then finalize_section st else st)"

text \<open>The fields of the open section are the assignments made so far, the last one
  for each name.\<close>

definition fields_follow_log :: "parser_state \<Rightarrow> (string \<times> string) list \<Rightarrow> bool" where
  "fields_follow_log st cur =
     (case current_section st of
        Some sec \<Rightarrow> field_values sec = map_of (rev cur)
      | None \<Rightarrow> True)"

text \<open>
  Templates of depth-1 required leaf fields under one worksheet section: the section
  line \<open>- title\<close> followed by one line \<open># name [1] $\<close> per name. A name is clean
  when it is not empty, has no whitespace at either end and has none of the characters
  that end a name in the header grammar, nor a newline.
\<close>

definition clean_title :: "string \<Rightarrow> bool" where
  "clean_title s = (s \<noteq> [] \<and> \<not> isspace (hd s) \<and> \<not> isspace (last s) \<and> CHR 0x0A \<notin> set s)"

definition clean_name :: "string \<Rightarrow> bool" where
  "clean_name n =
     (n \<noteq> [] \<and> \<not> isspace (hd n) \<and> \<not> isspace (last n) \<and>
      list_all (\<lambda>c. c \<notin> set ''|[$'' \<and> c \<noteq> CHR 0x0A) n)"

definition leaf_template :: "string \<Rightarrow> string list \<Rightarrow> string" where
  "leaf_template s names =
     join [CHR 0x0A] ((''- '' @ s) # map (\<lambda>n. ''# '' @ n @ '' [1] $'') names)"

text \<open>
  The lines of the worksheet generated for such a template, after the text has been
  stripped and split: a field line and a blank line for every name, the last field line
  without the blank that the strip removes.
\<close>

definition leaf_worksheet_body :: "string list \<Rightarrow> string list" where
  "leaf_worksheet_body names =
     (if names = [] then []
      else concat (map (\<lambda>n. [''# '' @ n @ '' | '', []]) (butlast names)) @
           [''# '' @ last names @ '' |''])"

text \<open>
  The lines \<open>_generate_worksheet\<close> holds after each item of the structure, in closed
  form. \<open>section_lines\<close> is what the branch of a worksheet section makes of
  \<open>result\<close> (lines 137 to 148) when \<open>roots\<close> is the hierarchy built from the content
  of the section, \<open>item_lines\<close> is one turn of the loop of line 135 and
  \<open>worksheet_lines\<close> the whole loop, started on \<open>result\<close>.
\<close>

definition section_lines ::
  "string list \<Rightarrow> string \<Rightarrow> header list \<Rightarrow> (string \<rightharpoonup> int) \<Rightarrow> string list" where
  "section_lines result section_name roots quantities =
     result @ (if result \<noteq> [] then [[]] else []) @ [''# '' @ section_name, ''---''] @
     items_lines roots quantities []"

definition item_lines :: "(string \<rightharpoonup> int) \<Rightarrow> item \<Rightarrow> string list \<Rightarrow> string list" where
  "item_lines quantities it result =
     (case it of
        WorksheetSection section_name hdrs \<Rightarrow>
          section_lines result section_name (build_hierarchy hdrs) quantities
      | HeaderItem h \<Rightarrow> result @ items_lines [h] quantities [])"

definition worksheet_lines ::
  "item list \<Rightarrow> (string \<rightharpoonup> int) \<Rightarrow> string list \<Rightarrow> string list" where
  "worksheet_lines structure quantities result = fold (item_lines quantities) structure result"

text \<open>
  \<open>removed z hs hs'\<close>: the list of records \<open>hs'\<close> is \<open>hs\<close> without one occurrence of
  the record \<open>z\<close> and of everything nested under it, at any depth, where the parent of
  \<open>z\<close>, if it has one, keeps at least one child. \<open>with_children h ks\<close> is the record
  \<open>h\<close> with the children list \<open>ks\<close>.
\<close>

definition with_children :: "header \<Rightarrow> header list \<Rightarrow> header" where
  "with_children h ks =
     Header (level h) (name h) (cardinality h) (required h) (notes_text h) ks"

inductive removed :: "header \<Rightarrow> header list \<Rightarrow> header list \<Rightarrow> bool"
  for z :: header where
  here: "removed z (z # hs) hs"
| later: "removed z hs hs' \<Longrightarrow> removed z (h # hs) (h # hs')"
| below: "removed z (children p) ks \<Longrightarrow> ks \<noteq> [] \<Longrightarrow>
          removed z (p # hs) (with_children p ks # hs)"

code_pred removed .

section \<open>The generator appends the lines of each record\<close>

lemma size_children: "c \<in> set (children h) \<Longrightarrow> size c < size h"
  by (cases h) (auto simp: less_Suc_eq_le dest: size_list_estimation')

lemma fold_lines:
  assumes "\<And>c r. c \<in> set cs \<Longrightarrow> f c r = r @ f c []"
  shows "fold f cs r = r @ concat (map (\<lambda>c. f c []) cs)"
  using assms
proof (induction cs arbitrary: r)
  case Nil
  then show ?case by simp
next
  case (Cons c cs)
  have step: "f c r = r @ f c []"
    by (rule Cons.prems) simp
  have "fold f cs (f c r) = f c r @ concat (map (\<lambda>c. f c []) cs)"
    by (rule Cons.IH) (rule Cons.prems, simp)
  then show ?case
    by (simp add: step)
qed

lemma fold_blocks: "fold (\<lambda>i r. r @ g i) xs r = r @ concat (map g xs)"
  by (induction xs arbitrary: r) auto

lemma generate_item_output_lines:
  "generate_item_output item result q path =
   result @ instances item (effective_count item q (join ''.'' (path @ [name item]))) q path"
proof (induction "size item" arbitrary: item result path rule: less_induct)
  case less
  have IH: "generate_item_output c r q p = r @ generate_item_output c [] q p"
    if "c \<in> set (children item)" for c r p
    using less[OF size_children[OF that], of r p] less[OF size_children[OF that], of "[]" p]
    by simp
  have kids: "fold (\<lambda>child r. generate_item_output child r q (path @ [name item]))
                (children item) r = r @ children_lines item q path" for r
    unfolding children_lines_def items_lines_def by (rule fold_lines) (rule IH)
  show ?case
    unfolding instances_def instance_block_def header_text_def instance_header_def
      blank_after_def leaf_line_def
    apply (subst generate_item_output.simps)
    apply (cases "children item = []"; cases "level item = 1"; cases "level item = 2")
           apply (simp_all add: kids Let_def fold_blocks cong: if_cong)
    done
qed

lemma generate_items_lines:
  "fold (\<lambda>c r. generate_item_output c r q path) cs result = result @ items_lines cs q path"
  unfolding items_lines_def
  by (rule fold_lines) (simp add: generate_item_output_lines)

section \<open>The lines of a whole worksheet\<close>

lemma generate_item_output_single:
  "generate_item_output h result q path = result @ items_lines [h] q path"
  using generate_items_lines[of q path "[h]" result] by simp

lemma generate_worksheet_lines:
  "generate_worksheet structure q = join [CHR 0x0A] (worksheet_lines structure q [])"
proof -
  have "(\<lambda>it result.
           case it of
             WorksheetSection section_name hdrs \<Rightarrow>
               (let result = (if result \<noteq> [] then result @ [[]] else result);
                    result = result @ [''# '' @ section_name];
                    result = result @ [''---''];
                    hierarchy = build_hierarchy hdrs
                in fold (\<lambda>content_item r. generate_item_output content_item r q [])
                     hierarchy result)
           | HeaderItem h \<Rightarrow> generate_item_output h result q []) = item_lines q"
  proof (intro ext)
    fix it result
    show "(case it of
             WorksheetSection section_name hdrs \<Rightarrow>
               (let result = (if result \<noteq> [] then result @ [[]] else result);
                    result = result @ [''# '' @ section_name];
                    result = result @ [''---''];
                    hierarchy = build_hierarchy hdrs
                in fold (\<lambda>content_item r. generate_item_output content_item r q [])
                     hierarchy result)
           | HeaderItem h \<Rightarrow> generate_item_output h result q []) = item_lines q it result"
    proof (cases it)
      case (WorksheetSection section_name hdrs)
      then show ?thesis
        unfolding item_lines_def section_lines_def Let_def generate_items_lines
        by simp
    next
      case (HeaderItem h)
      then show ?thesis
        by (simp add: item_lines_def generate_item_output_single)
    qed
  qed
  then show ?thesis
    unfolding generate_worksheet_def worksheet_lines_def by simp
qed

lemma worksheet_lines_section:
  "worksheet_lines (before @ WorksheetSection n hdrs # after) q result =
   worksheet_lines after q
     (section_lines (worksheet_lines before q result) n (build_hierarchy hdrs) q)"
  by (simp add: worksheet_lines_def item_lines_def)

lemma parse_llm_md_whole:
  assumes "parse_template_structure (split_on (CHR 0x0A) (strip template)) = Inr structure"
  shows "parse_llm_md template None q = Inr (join [CHR 0x0A] (worksheet_lines structure q []))"
  using assms
  by (simp add: parse_llm_md_def filter_content_structure_def generate_worksheet_lines
      del: join.simps)

lemma fixed_zero_lines:
  assumes "cardinality z = Fixed 0"
  shows "generate_item_output z result q path = result"
  using assms by (simp add: generate_item_output_lines effective_count_def instances_def)

lemma items_lines_Cons:
  "items_lines (h # hs) q path = generate_item_output h [] q path @ items_lines hs q path"
  by (simp add: items_lines_def)

lemma with_children_sel:
  "level (with_children h ks) = level h"
  "name (with_children h ks) = name h"
  "cardinality (with_children h ks) = cardinality h"
  "children (with_children h ks) = ks"
  by (simp_all add: with_children_def)

lemma with_children_texts:
  "header_text (with_children h ks) = header_text h"
  "instance_header (with_children h ks) i = instance_header h i"
  "blank_after (with_children h ks) = blank_after h"
  "effective_count (with_children h ks) q key = effective_count h q key"
  by (simp_all add: header_text_def instance_header_def blank_after_def effective_count_def
      with_children_sel)

lemma removed_nonempty: "removed z hs hs' \<Longrightarrow> hs \<noteq> []"
  by (induction rule: removed.induct) simp_all

lemma removed_lines:
  assumes "cardinality z = Fixed 0" and "removed z hs hs'"
  shows "items_lines hs q path = items_lines hs' q path"
  using assms(2)
proof (induction arbitrary: path rule: removed.induct)
  case (here hs)
  then show ?case
    using fixed_zero_lines[OF assms(1), of "[]" q path]
    by (simp add: items_lines_Cons)
next
  case (later hs hs' h)
  then show ?case
    by (simp add: items_lines_Cons)
next
  case (below p ks hs)
  have "children p \<noteq> []"
    using below.hyps(1) by (rule removed_nonempty)
  moreover have "children_lines (with_children p ks) q path = children_lines p q path"
    using below.IH[of "path @ [name p]"]
    by (simp add: children_lines_def with_children_sel)
  ultimately have "generate_item_output (with_children p ks) [] q path =
      generate_item_output p [] q path"
    using below.hyps(2)
    by (simp add: generate_item_output_lines instances_def instance_block_def[abs_def]
        with_children_sel with_children_texts)
  then show ?case
    by (simp add: items_lines_Cons)
qed

section \<open>Claims about the generator\<close>

text \<open>
  Claim C10 as stated fails for the records before a \<open>[0]\<close> record: a parent whose
  only child is a \<open>[0]\<close> record still has a child, so it is emitted in the form of a
  container, \<open># A\<close>, where the same template without the \<open>[0]\<close> record gives the
  field line \<open># A | \<close>.
\<close>

theorem fixed_zero_parent_counterexample:
  "parse_llm_md (''- S'' @ [CHR 0x0A] @ ''# A'' @ [CHR 0x0A] @ ''## B [0]'') None Map.empty =
     Inr (join [CHR 0x0A] [''# S'', ''---'', ''# A'', []]) \<and>
   parse_llm_md (''- S'' @ [CHR 0x0A] @ ''# A'') None Map.empty =
     Inr (join [CHR 0x0A] [''# S'', ''---'', ''# A | '', []])"
  by code_simp

text \<open>
  Claim C10, as the code has it when the whole worksheet is generated. Let the template
  parse to a structure with a worksheet section \<open>n\<close>, and let \<open>z\<close> be a record of
  cardinality \<open>[0]\<close> in the hierarchy of that section, at any depth, whose parent (if it
  has one) has another child; \<open>roots\<close> is that hierarchy without \<open>z\<close> and the records
  nested under it. Then the worksheet is the one generated from \<open>roots\<close>: the items
  before the section, the section header, the lines of \<open>roots\<close> and the items after
  the section. It is therefore the worksheet of every template that parses to the same
  structure with \<open>roots\<close> as the hierarchy of the section: no line comes from \<open>z\<close> or
  from a record nested under it, and every other record is expanded as without them.
  Wherever the generator meets \<open>z\<close> it returns the lines it was given. A parent
  whose only child is \<open>z\<close> is emitted as a container without content: its header line
  without the field mark, once for each instance, followed by the blank line of level 1.
\<close>

theorem fixed_zero_in_worksheet:
  assumes "parse_template_structure (split_on (CHR 0x0A) (strip template)) =
             Inr (before @ WorksheetSection n hdrs # after)"
    and "cardinality z = Fixed 0"
    and "removed z (build_hierarchy hdrs) roots"
  shows "parse_llm_md template None quantities =
           Inr (join [CHR 0x0A]
             (worksheet_lines after quantities
                (section_lines (worksheet_lines before quantities []) n roots quantities))) \<and>
         (parse_template_structure (split_on (CHR 0x0A) (strip template')) =
            Inr (before @ WorksheetSection n hdrs' # after) \<and>
          build_hierarchy hdrs' = roots \<longrightarrow>
            parse_llm_md template None quantities = parse_llm_md template' None quantities) \<and>
         generate_item_output z result quantities path = result \<and>
         (children p = [z] \<longrightarrow>
            generate_item_output p result quantities path =
              result @
              (if effective_count p quantities (join ''.'' (path @ [name p])) = 1
               then [header_text p] @ blank_after p
               else concat (map (\<lambda>i. [instance_header p i] @ blank_after p)
                      [0..<nat (effective_count p quantities (join ''.'' (path @ [name p])))])))"
proof -
  have same: "section_lines r n (build_hierarchy hdrs) quantities =
      section_lines r n roots quantities" for r
    using removed_lines[OF assms(2,3), of quantities "[]"] by (simp add: section_lines_def)
  have whole: "parse_llm_md template None quantities =
           Inr (join [CHR 0x0A]
             (worksheet_lines after quantities
                (section_lines (worksheet_lines before quantities []) n roots quantities)))"
    unfolding parse_llm_md_whole[OF assms(1)] worksheet_lines_section same ..
  have other: "parse_llm_md template None quantities = parse_llm_md template' None quantities"
    if "parse_template_structure (split_on (CHR 0x0A) (strip template')) =
            Inr (before @ WorksheetSection n hdrs' # after)"
      and "build_hierarchy hdrs' = roots"
    unfolding whole parse_llm_md_whole[OF that(1)] worksheet_lines_section that(2) ..
  have silent: "generate_item_output z r quantities pth = r" for r pth
    using assms(2) by (rule fixed_zero_lines)
  have only: "generate_item_output p result quantities path =
              result @
              (if effective_count p quantities (join ''.'' (path @ [name p])) = 1
               then [header_text p] @ blank_after p
               else concat (map (\<lambda>i. [instance_header p i] @ blank_after p)
                      [0..<nat (effective_count p quantities (join ''.'' (path @ [name p])))]))"
    if "children p = [z]"
  proof -
    have "children_lines p quantities path = []"
      unfolding children_lines_def items_lines_def that
      by (simp add: fixed_zero_lines[OF assms(2)])
    then show ?thesis
      using that
      by (simp add: generate_item_output_lines instances_def instance_block_def[abs_def])
  qed
  from whole other silent only show ?thesis
    by blast
qed

theorem fixed_zero_in_worksheet_witness:
  "parse_llm_md
     (''- Intro'' @ [CHR 0x0A] @ ''# Title $'' @ [CHR 0x0A] @
      ''- Plan'' @ [CHR 0x0A] @ ''# Book'' @ [CHR 0x0A] @ ''## Chapter [0]'' @ [CHR 0x0A] @
      ''### Scene $'' @ [CHR 0x0A] @ ''## Theme'' @ [CHR 0x0A] @ ''# Notes'' @ [CHR 0x0A] @
      ''- End'' @ [CHR 0x0A] @ ''# Done'') None Map.empty =
   Inr (join [CHR 0x0A]
     [''# Intro'', ''---'', ''# Title | '', [], [],
      ''# Plan'', ''---'', ''# Book'', [], ''## Theme | '', ''# Notes | '', [], [],
      ''# End'', ''---'', ''# Done | '', []]) \<and>
   parse_llm_md
     (''- Intro'' @ [CHR 0x0A] @ ''# Title $'' @ [CHR 0x0A] @
      ''- Plan'' @ [CHR 0x0A] @ ''# Book'' @ [CHR 0x0A] @ ''## Chapter [0]'' @ [CHR 0x0A] @
      ''### Scene $'' @ [CHR 0x0A] @ ''## Theme'' @ [CHR 0x0A] @ ''# Notes'' @ [CHR 0x0A] @
      ''- End'' @ [CHR 0x0A] @ ''# Done'') None Map.empty =
   parse_llm_md
     (''- Intro'' @ [CHR 0x0A] @ ''# Title $'' @ [CHR 0x0A] @
      ''- Plan'' @ [CHR 0x0A] @ ''# Book'' @ [CHR 0x0A] @ ''## Theme'' @ [CHR 0x0A] @
      ''# Notes'' @ [CHR 0x0A] @ ''- End'' @ [CHR 0x0A] @ ''# Done'') None Map.empty \<and>
   generate_item_output
     (Header 2 ''Chapter'' (Fixed 0) False [] [Header 3 ''Scene'' (Fixed 1) True [] []])
     [''# Book'', []] Map.empty [''Book''] = [''# Book'', []] \<and>
   generate_item_output
     (Header 1 ''Part'' (Range 2 3) False []
        [Header 2 ''Chapter'' (Fixed 0) False [] [Header 3 ''Scene'' (Fixed 1) True [] []]])
     [] Map.empty [] = [''# Part'', [], ''# Part'', []]"
proof -
  let ?t = "''- Intro'' @ [CHR 0x0A] @ ''# Title $'' @ [CHR 0x0A] @
      ''- Plan'' @ [CHR 0x0A] @ ''# Book'' @ [CHR 0x0A] @ ''## Chapter [0]'' @ [CHR 0x0A] @
      ''### Scene $'' @ [CHR 0x0A] @ ''## Theme'' @ [CHR 0x0A] @ ''# Notes'' @ [CHR 0x0A] @
      ''- End'' @ [CHR 0x0A] @ ''# Done''"
  let ?t' = "''- Intro'' @ [CHR 0x0A] @ ''# Title $'' @ [CHR 0x0A] @
      ''- Plan'' @ [CHR 0x0A] @ ''# Book'' @ [CHR 0x0A] @ ''## Theme'' @ [CHR 0x0A] @
      ''# Notes'' @ [CHR 0x0A] @ ''- End'' @ [CHR 0x0A] @ ''# Done''"
  let ?before = "[WorksheetSection ''Intro'' [Header 1 ''Title'' (Fixed 1) True [] []]]"
  let ?after = "[WorksheetSection ''End'' [Header 1 ''Done'' (Fixed 1) False [] []]]"
  let ?scene = "Header 3 ''Scene'' (Fixed 1) True [] []"
  let ?theme = "Header 2 ''Theme'' (Fixed 1) False [] []"
  let ?notes = "Header 1 ''Notes'' (Fixed 1) False [] []"
  let ?hdrs = "[Header 1 ''Book'' (Fixed 1) False [] [],
                Header 2 ''Chapter'' (Fixed 0) False [] [], ?scene, ?theme, ?notes]"
  let ?hdrs' = "[Header 1 ''Book'' (Fixed 1) False [] [], ?theme, ?notes]"
  let ?z = "Header 2 ''Chapter'' (Fixed 0) False [] [?scene]"
  let ?book = "Header 1 ''Book'' (Fixed 1) False [] [?z, ?theme]"
  let ?roots = "[Header 1 ''Book'' (Fixed 1) False [] [?theme], ?notes]"
  let ?part = "Header 1 ''Part'' (Range 2 3) False [] [?z]"
  have p: "parse_template_structure (split_on (CHR 0x0A) (strip ?t)) =
      Inr (?before @ WorksheetSection ''Plan'' ?hdrs # ?after)"
    by code_simp
  have p': "parse_template_structure (split_on (CHR 0x0A) (strip ?t')) =
      Inr (?before @ WorksheetSection ''Plan'' ?hdrs' # ?after)"
    by code_simp
  have z: "cardinality ?z = Fixed 0"
    by simp
  have b: "build_hierarchy ?hdrs = [?book, ?notes]"
    by code_simp
  have b': "build_hierarchy ?hdrs' = ?roots"
    by code_simp
  have "removed ?z (children ?book) [?theme]"
    by (simp add: removed.here)
  then have "removed ?z [?book, ?notes] (with_children ?book [?theme] # [?notes])"
    by (rule removed.below) simp
  then have r: "removed ?z (build_hierarchy ?hdrs) ?roots"
    unfolding b by (simp add: with_children_def)
  have k: "children ?part = [?z]"
    by simp
  note t = fixed_zero_in_worksheet[OF p z r, where template' = ?t' and hdrs' = ?hdrs'
      and quantities = Map.empty and result = "[''# Book'', []]" and path = "[''Book'']"]
  have e: "join [CHR 0x0A]
             (worksheet_lines ?after Map.empty
                (section_lines (worksheet_lines ?before Map.empty []) ''Plan'' ?roots Map.empty)) =
      join [CHR 0x0A]
     [''# Intro'', ''---'', ''# Title | '', [], [],
      ''# Plan'', ''---'', ''# Book'', [], ''## Theme | '', ''# Notes | '', [], [],
      ''# End'', ''---'', ''# Done | '', []]"
    by code_simp
  have c: "[] @
      (if effective_count ?part Map.empty (join ''.'' ([] @ [name ?part])) = 1
       then [header_text ?part] @ blank_after ?part
       else concat (map (\<lambda>i. [instance_header ?part i] @ blank_after ?part)
              [0..<nat (effective_count ?part Map.empty (join ''.'' ([] @ [name ?part])))])) =
      [''# Part'', [], ''# Part'', []]"
    by code_simp
  note s = fixed_zero_in_worksheet[OF p z r, where p = ?part and quantities = Map.empty
      and result = "[]" and path = "[]"]
  have first: "parse_llm_md ?t None Map.empty =
      Inr (join [CHR 0x0A]
     [''# Intro'', ''---'', ''# Title | '', [], [],
      ''# Plan'', ''---'', ''# Book'', [], ''## Theme | '', ''# Notes | '', [], [],
      ''# End'', ''---'', ''# Done | '', []])"
    using t[THEN conjunct1] unfolding e .
  have second: "parse_llm_md ?t None Map.empty = parse_llm_md ?t' None Map.empty"
    by (rule t[THEN conjunct2, THEN conjunct1, THEN mp]) (rule conjI[OF p' b'])
  have third: "generate_item_output ?z [''# Book'', []] Map.empty [''Book''] = [''# Book'', []]"
    by (rule t[THEN conjunct2, THEN conjunct2, THEN conjunct1])
  have fourth: "generate_item_output ?part [] Map.empty [] = [''# Part'', [], ''# Part'', []]"
    using s[THEN conjunct2, THEN conjunct2, THEN conjunct2, THEN mp, OF k] unfolding c .
  from first second third fourth show ?thesis
    by (intro conjI)
qed

text \<open>
  Claim C2. Without an override for its dotted path, a record of cardinality \<open>[*]\<close> is
  expanded to exactly two instances (the blocks of instance 0 and instance 1), and a
  record of cardinality \<open>[a-b]\<close> to the instances of count \<open>a\<close>. A record of fixed
  cardinality \<open>[c]\<close> is expanded to the instances of count \<open>c\<close> whatever the
  quantities hold, also an entry for its own path.
\<close>

theorem default_instance_counts:
  "(cardinality item = Unlimited \<and> quantities (join ''.'' (path @ [name item])) = None \<longrightarrow>
      generate_item_output item result quantities path =
        result @ instance_block item quantities path 0 @ instance_block item quantities path 1) \<and>
   (cardinality item = Range mn mx \<and> quantities (join ''.'' (path @ [name item])) = None \<longrightarrow>
      generate_item_output item result quantities path =
        result @ instances item mn quantities path) \<and>
   (cardinality item = Fixed c \<longrightarrow>
      generate_item_output item result quantities path =
        result @ instances item c quantities path)"
proof -
  have two: "[0..<2] = [0, Suc 0]"
    by (simp add: numeral_2_eq_2)
  show ?thesis
    by (simp add: generate_item_output_lines effective_count_def instances_def two)
qed

theorem default_instance_counts_witness:
  "generate_item_output (Header 2 ''Character'' Unlimited False [] []) [] Map.empty [''Cast''] =
     [''## Character | '', ''## Character | ''] \<and>
   generate_item_output (Header 3 ''Key Scenes'' (Range 3 5) False [] []) [] Map.empty [] =
     [''### Key Scenes | '', ''### Key Scenes | '', ''### Key Scenes | ''] \<and>
   generate_item_output (Header 2 ''Act'' (Fixed 4) False [] []) []
     (Map.empty(''Act'' \<mapsto> 7)) [] =
     [''## Act | '', ''## Act | '', ''## Act | '', ''## Act | '']"
proof -
  let ?u = "Header 2 ''Character'' Unlimited False [] []"
  let ?r = "Header 3 ''Key Scenes'' (Range 3 5) False [] []"
  let ?f = "Header 2 ''Act'' (Fixed 4) False [] []"
  let ?q = "Map.empty(''Act'' \<mapsto> (7::int))"
  have u: "cardinality ?u = Unlimited \<and> Map.empty (join ''.'' ([''Cast''] @ [name ?u])) = None"
    by simp
  have r: "cardinality ?r = Range 3 5 \<and> Map.empty (join ''.'' ([] @ [name ?r])) = None"
    by simp
  have f: "cardinality ?f = Fixed 4"
    by simp
  have eu: "instance_block ?u Map.empty [''Cast''] 0 @ instance_block ?u Map.empty [''Cast''] 1 =
      [''## Character | '', ''## Character | '']"
    by code_simp
  have er: "instances ?r 3 Map.empty [] =
      [''### Key Scenes | '', ''### Key Scenes | '', ''### Key Scenes | '']"
    by code_simp
  have ef: "instances ?f 4 ?q [] = [''## Act | '', ''## Act | '', ''## Act | '', ''## Act | '']"
    by code_simp
  from default_instance_counts[of ?u Map.empty "[''Cast'']" "[]"] u eu
  have 1: "generate_item_output ?u [] Map.empty [''Cast''] =
      [''## Character | '', ''## Character | '']"
    by simp
  from default_instance_counts[of ?r Map.empty "[]" "[]" 3 5] r er
  have 2: "generate_item_output ?r [] Map.empty [] =
      [''### Key Scenes | '', ''### Key Scenes | '', ''### Key Scenes | '']"
    by simp
  from default_instance_counts[of ?f ?q "[]" "[]" _ _ 4] f ef
  have 3: "generate_item_output ?f [] ?q [] =
      [''## Act | '', ''## Act | '', ''## Act | '', ''## Act | '']"
    by simp
  from 1 2 3 show ?thesis by simp
qed

text \<open>
  Claim C4. A container of level 2 that is expanded to more than one instance emits, for
  instance \<open>i\<close> (counted from 0), the header \<open>## name\<close> followed by the number
  \<open>i + 1\<close> when its name in lower case contains \<open>chapter\<close>, and the bare header
  \<open>## name\<close> for every instance otherwise; the lines of its children follow each
  header.
\<close>

theorem chapter_headers_numbered:
  assumes "level item = 2"
    and "children item \<noteq> []"
    and "1 < effective_count item quantities (join ''.'' (path @ [name item]))"
  shows "generate_item_output item result quantities path =
         result @
         concat (map (\<lambda>i. [if contains ''chapter'' (lower (name item))
                            then ''## '' @ name item @ '' '' @ str_nat (i + 1)
                            else ''## '' @ name item] @
                           children_lines item quantities path)
                   [0..<nat (effective_count item quantities (join ''.'' (path @ [name item])))])"
proof -
  have two: "replicate 2 CHR ''#'' = ''##''"
    by (simp add: numeral_2_eq_2)
  show ?thesis
    using assms
    by (simp add: generate_item_output_lines instances_def instance_block_def[abs_def]
        instance_header_def header_text_def blank_after_def two cong: if_cong)
qed

theorem chapter_headers_numbered_witness:
  "generate_item_output
     (Header 2 ''Chapter'' Unlimited False [] [Header 3 ''Title'' (Fixed 1) True [] []])
     [] (Map.empty(''Outline.Chapter'' \<mapsto> 3)) [''Outline''] =
   [''## Chapter 1'', ''### Title | '', ''## Chapter 2'', ''### Title | '',
    ''## Chapter 3'', ''### Title | ''] \<and>
   generate_item_output
     (Header 2 ''Scene'' Unlimited False [] [Header 3 ''Title'' (Fixed 1) True [] []])
     [] (Map.empty(''Outline.Scene'' \<mapsto> 3)) [''Outline''] =
   [''## Scene'', ''### Title | '', ''## Scene'', ''### Title | '',
    ''## Scene'', ''### Title | '']"
proof -
  let ?c = "Header 2 ''Chapter'' Unlimited False [] [Header 3 ''Title'' (Fixed 1) True [] []]"
  let ?s = "Header 2 ''Scene'' Unlimited False [] [Header 3 ''Title'' (Fixed 1) True [] []]"
  let ?qc = "Map.empty(''Outline.Chapter'' \<mapsto> (3::int))"
  let ?qs = "Map.empty(''Outline.Scene'' \<mapsto> (3::int))"
  have nc: "effective_count ?c ?qc (join ''.'' ([''Outline''] @ [name ?c])) = 3"
    by code_simp
  have ns: "effective_count ?s ?qs (join ''.'' ([''Outline''] @ [name ?s])) = 3"
    by code_simp
  have ec: "concat (map (\<lambda>i. [if contains ''chapter'' (lower (name ?c))
                            then ''## '' @ name ?c @ '' '' @ str_nat (i + 1)
                            else ''## '' @ name ?c] @
                           children_lines ?c ?qc [''Outline'']) [0..<nat 3]) =
      [''## Chapter 1'', ''### Title | '', ''## Chapter 2'', ''### Title | '',
       ''## Chapter 3'', ''### Title | '']"
    by code_simp
  have es: "concat (map (\<lambda>i. [if contains ''chapter'' (lower (name ?s))
                            then ''## '' @ name ?s @ '' '' @ str_nat (i + 1)
                            else ''## '' @ name ?s] @
                           children_lines ?s ?qs [''Outline'']) [0..<nat 3]) =
      [''## Scene'', ''### Title | '', ''## Scene'', ''### Title | '',
       ''## Scene'', ''### Title | '']"
    by code_simp
  have 1: "generate_item_output ?c [] ?qc [''Outline''] =
      [''## Chapter 1'', ''### Title | '', ''## Chapter 2'', ''### Title | '',
       ''## Chapter 3'', ''### Title | '']"
    using chapter_headers_numbered[of ?c ?qc "[''Outline'']" "[]"] ec
    unfolding nc by simp
  have 2: "generate_item_output ?s [] ?qs [''Outline''] =
      [''## Scene'', ''### Title | '', ''## Scene'', ''### Title | '',
       ''## Scene'', ''### Title | '']"
    using chapter_headers_numbered[of ?s ?qs "[''Outline'']" "[]"] es
    unfolding ns by simp
  from 1 2 show ?thesis by simp
qed

text \<open>
  Claim C5, as the code has it. The extra blank line of a level-1 container that is
  expanded to several instances is appended inside the loop, at the end of every
  instance: a container with children and a count above 1 contributes, per instance,
  its header, the lines of its children, and then one blank line when its level is 1 and
  nothing otherwise.
\<close>

theorem blank_line_after_each_instance:
  assumes "1 < effective_count item quantities (join ''.'' (path @ [name item]))"
    and "children item \<noteq> []"
  shows "generate_item_output item result quantities path =
         result @
         concat (map (\<lambda>i. [instance_header item i] @ children_lines item quantities path @
                           (if level item = 1 then [[]] else []))
                   [0..<nat (effective_count item quantities (join ''.'' (path @ [name item])))])"
  using assms
  by (simp add: generate_item_output_lines instances_def instance_block_def[abs_def]
      blank_after_def cong: if_cong)

theorem blank_line_after_each_instance_witness:
  "generate_item_output
     (Header 1 ''Part'' (Fixed 2) False [] [Header 2 ''Goal'' (Fixed 1) False [] []])
     [] Map.empty [] =
   [''# Part'', ''## Goal | '', '''', ''# Part'', ''## Goal | '', '''']"
proof -
  let ?p = "Header 1 ''Part'' (Fixed 2) False [] [Header 2 ''Goal'' (Fixed 1) False [] []]"
  have n: "effective_count ?p Map.empty (join ''.'' ([] @ [name ?p])) = 2"
    by code_simp
  have e: "concat (map (\<lambda>i. [instance_header ?p i] @ children_lines ?p Map.empty [] @
                           (if level ?p = 1 then [[]] else [])) [0..<nat 2]) =
      [''# Part'', ''## Goal | '', '''', ''# Part'', ''## Goal | '', '''']"
    by code_simp
  show ?thesis
    using blank_line_after_each_instance[of ?p Map.empty "[]" "[]"] e
    unfolding n by simp
qed

text \<open>
  Claim C5 as stated asks for one blank line after the whole repeated block. A level-1
  container with one child and two instances gets a blank line after each instance, so
  its output differs from the block with a single trailing blank line.
\<close>

theorem single_trailing_blank_counterexample:
  "level (Header 1 ''Part'' (Fixed 2) False [] [Header 2 ''Goal'' (Fixed 1) False [] []]) = 1 \<and>
   effective_count
     (Header 1 ''Part'' (Fixed 2) False [] [Header 2 ''Goal'' (Fixed 1) False [] []])
     Map.empty ''Part'' = 2 \<and>
   generate_item_output
     (Header 1 ''Part'' (Fixed 2) False [] [Header 2 ''Goal'' (Fixed 1) False [] []])
     [] Map.empty [] =
   [''# Part'', ''## Goal | '', '''', ''# Part'', ''## Goal | '', ''''] \<and>
   generate_item_output
     (Header 1 ''Part'' (Fixed 2) False [] [Header 2 ''Goal'' (Fixed 1) False [] []])
     [] Map.empty [] \<noteq>
   [''# Part'', ''## Goal | '', ''# Part'', ''## Goal | '', '''']"
  by code_simp

text \<open>
  Claim C3 as stated fails when \<open>Parent\<close> is emitted more than once: the five
  \<open>Child\<close> blocks are generated inside each instance of \<open>Parent\<close>. A \<open>Parent\<close> of
  cardinality \<open>[2]\<close> gives ten \<open>Child\<close> blocks, and so do two worksheet sections that
  each hold a \<open>Parent\<close> with a \<open>Child\<close>, since the key \<open>Parent.Child\<close> names both.
\<close>

theorem parent_child_override_counterexample:
  "parse_llm_md
     (''- S'' @ [CHR 0x0A] @ ''# Parent [2]'' @ [CHR 0x0A] @ ''## Child [*]'' @ [CHR 0x0A] @
      ''### Name'')
     None (Map.empty(''Parent.Child'' \<mapsto> 5)) =
   Inr (join [CHR 0x0A]
     [''# S'', ''---'',
      ''# Parent'',
      ''## Child'', ''### Name | '', ''## Child'', ''### Name | '', ''## Child'', ''### Name | '',
      ''## Child'', ''### Name | '', ''## Child'', ''### Name | '', [],
      ''# Parent'',
      ''## Child'', ''### Name | '', ''## Child'', ''### Name | '', ''## Child'', ''### Name | '',
      ''## Child'', ''### Name | '', ''## Child'', ''### Name | '', []]) \<and>
   parse_llm_md
     (''- A'' @ [CHR 0x0A] @ ''# Parent'' @ [CHR 0x0A] @ ''## Child [*]'' @ [CHR 0x0A] @
      ''### Name'' @ [CHR 0x0A] @
      ''- B'' @ [CHR 0x0A] @ ''# Parent'' @ [CHR 0x0A] @ ''## Child [*]'' @ [CHR 0x0A] @
      ''### Name'')
     None (Map.empty(''Parent.Child'' \<mapsto> 5)) =
   Inr (join [CHR 0x0A]
     [''# A'', ''---'', ''# Parent'', [],
      ''## Child'', ''### Name | '', ''## Child'', ''### Name | '', ''## Child'', ''### Name | '',
      ''## Child'', ''### Name | '', ''## Child'', ''### Name | '', [],
      ''# B'', ''---'', ''# Parent'', [],
      ''## Child'', ''### Name | '', ''## Child'', ''### Name | '', ''## Child'', ''### Name | '',
      ''## Child'', ''### Name | '', ''## Child'', ''### Name | ''])"
  by code_simp

text \<open>
  Claim C3, as the code has it when the whole worksheet is generated. Let the template
  parse to a structure with a worksheet section \<open>n\<close>, whatever stands before and after
  it, let the hierarchy of that section have a root record named \<open>Parent\<close> with a child
  record named \<open>Child\<close> of cardinality \<open>[*]\<close>, and let the quantities map
  \<open>Parent.Child\<close> to 5. Then the worksheet is made of the lines of the items before the
  section, the section header, the lines of the roots before \<open>Parent\<close>, the instances
  of \<open>Parent\<close> and the lines of what follows. \<open>Parent\<close> is expanded with the empty
  path: its own key is \<open>Parent\<close> and the name of the section is no part of any key.
  Each instance of \<open>Parent\<close> holds the lines of its children, and among them \<open>Child\<close>
  contributes exactly the five blocks of the instances 0 to 4, between the lines of the
  children before it and of the children after it.
\<close>

theorem parent_child_override:
  assumes "parse_template_structure (split_on (CHR 0x0A) (strip template)) =
             Inr (before @ WorksheetSection n hdrs # after)"
    and "build_hierarchy hdrs = roots_before @ parent # roots_after"
    and "name parent = ''Parent''"
    and "children parent = pre @ child # post"
    and "name child = ''Child''"
    and "cardinality child = Unlimited"
    and "quantities ''Parent.Child'' = Some 5"
  shows "parse_llm_md template None quantities =
           Inr (join [CHR 0x0A]
             (worksheet_lines after quantities
                (section_lines (worksheet_lines before quantities []) n roots_before quantities @
                 instances parent (effective_count parent quantities ''Parent'') quantities [] @
                 items_lines roots_after quantities []))) \<and>
         instances parent c quantities [] =
           (if c = 1
            then [header_text parent] @ blank_after parent @ children_lines parent quantities []
            else concat (map (\<lambda>i. [instance_header parent i] @
                                    children_lines parent quantities [] @ blank_after parent)
                   [0..<nat c])) \<and>
         children_lines parent quantities [] =
           items_lines pre quantities [''Parent''] @
           concat (map (instance_block child quantities [''Parent'']) [0..<5]) @
           items_lines post quantities [''Parent'']"
proof -
  have key: "join ''.'' [''Parent'', ''Child''] = ''Parent.Child''"
    by simp
  have "generate_item_output child [] quantities [''Parent''] =
        concat (map (instance_block child quantities [''Parent'']) [0..<5])"
    using assms(5-7)
    by (simp add: generate_item_output_lines effective_count_def instances_def key
        del: join.simps)
  then have kids: "children_lines parent quantities [] =
           items_lines pre quantities [''Parent''] @
           concat (map (instance_block child quantities [''Parent'']) [0..<5]) @
           items_lines post quantities [''Parent'']"
    using assms(3,4) by (simp add: children_lines_def items_lines_def)
  have roots: "items_lines (roots_before @ parent # roots_after) quantities [] =
          items_lines roots_before quantities [] @
          instances parent (effective_count parent quantities ''Parent'') quantities [] @
          items_lines roots_after quantities []"
    using assms(3) generate_item_output_lines[of parent "[]" quantities "[]"]
    by (simp add: items_lines_def)
  have sect: "section_lines r n (build_hierarchy hdrs) quantities =
      section_lines r n roots_before quantities @
      instances parent (effective_count parent quantities ''Parent'') quantities [] @
      items_lines roots_after quantities []" for r
    unfolding section_lines_def assms(2) roots by simp
  have whole: "parse_llm_md template None quantities =
           Inr (join [CHR 0x0A]
             (worksheet_lines after quantities
                (section_lines (worksheet_lines before quantities []) n roots_before quantities @
                 instances parent (effective_count parent quantities ''Parent'') quantities [] @
                 items_lines roots_after quantities [])))"
    unfolding parse_llm_md_whole[OF assms(1)] worksheet_lines_section sect ..
  have inst: "instances parent c quantities [] =
           (if c = 1
            then [header_text parent] @ blank_after parent @ children_lines parent quantities []
            else concat (map (\<lambda>i. [instance_header parent i] @
                                    children_lines parent quantities [] @ blank_after parent)
                   [0..<nat c]))"
    using assms(4) by (simp add: instances_def instance_block_def[abs_def])
  from whole inst kids show ?thesis
    by (intro conjI)
qed

theorem parent_child_override_witness:
  "parse_llm_md
     (''- Intro'' @ [CHR 0x0A] @ ''# Title $'' @ [CHR 0x0A] @
      ''- Cast'' @ [CHR 0x0A] @ ''# Parent'' @ [CHR 0x0A] @ ''## Child [*]'' @ [CHR 0x0A] @
      ''### Name [1] $'' @ [CHR 0x0A] @ ''## Mood'' @ [CHR 0x0A] @
      ''- End'' @ [CHR 0x0A] @ ''# Done'')
     None (Map.empty(''Parent.Child'' \<mapsto> 5)) =
   Inr (join [CHR 0x0A]
     [''# Intro'', ''---'', ''# Title | '', [], [],
      ''# Cast'', ''---'', ''# Parent'', [],
      ''## Child'', ''### Name | '', ''## Child'', ''### Name | '', ''## Child'', ''### Name | '',
      ''## Child'', ''### Name | '', ''## Child'', ''### Name | '', ''## Mood | '', [],
      ''# End'', ''---'', ''# Done | '', []]) \<and>
   children_lines
     (Header 1 ''Parent'' (Fixed 1) False []
        [Header 2 ''Child'' Unlimited False [] [Header 3 ''Name'' (Fixed 1) True [] []],
         Header 2 ''Mood'' (Fixed 1) False [] []])
     (Map.empty(''Parent.Child'' \<mapsto> 5)) [] =
   [''## Child'', ''### Name | '', ''## Child'', ''### Name | '', ''## Child'', ''### Name | '',
    ''## Child'', ''### Name | '', ''## Child'', ''### Name | '', ''## Mood | '']"
proof -
  let ?t = "''- Intro'' @ [CHR 0x0A] @ ''# Title $'' @ [CHR 0x0A] @
      ''- Cast'' @ [CHR 0x0A] @ ''# Parent'' @ [CHR 0x0A] @ ''## Child [*]'' @ [CHR 0x0A] @
      ''### Name [1] $'' @ [CHR 0x0A] @ ''## Mood'' @ [CHR 0x0A] @
      ''- End'' @ [CHR 0x0A] @ ''# Done''"
  let ?q = "Map.empty(''Parent.Child'' \<mapsto> (5::int))"
  let ?before = "[WorksheetSection ''Intro'' [Header 1 ''Title'' (Fixed 1) True [] []]]"
  let ?after = "[WorksheetSection ''End'' [Header 1 ''Done'' (Fixed 1) False [] []]]"
  let ?nm = "Header 3 ''Name'' (Fixed 1) True [] []"
  let ?mood = "Header 2 ''Mood'' (Fixed 1) False [] []"
  let ?hdrs = "[Header 1 ''Parent'' (Fixed 1) False [] [],
                Header 2 ''Child'' Unlimited False [] [], ?nm, ?mood]"
  let ?child = "Header 2 ''Child'' Unlimited False [] [?nm]"
  let ?parent = "Header 1 ''Parent'' (Fixed 1) False [] [?child, ?mood]"
  have p: "parse_template_structure (split_on (CHR 0x0A) (strip ?t)) =
      Inr (?before @ WorksheetSection ''Cast'' ?hdrs # ?after)"
    by code_simp
  have b: "build_hierarchy ?hdrs = [] @ ?parent # []"
    by code_simp
  have n: "name ?parent = ''Parent''" "name ?child = ''Child''"
    by simp_all
  have k: "children ?parent = [] @ ?child # [?mood]"
    by simp
  have u: "cardinality ?child = Unlimited"
    by simp
  have q: "?q ''Parent.Child'' = Some 5"
    by simp
  note t = parent_child_override[where before = ?before and after = ?after
      and roots_before = "[]" and parent = ?parent and roots_after = "[]"
      and pre = "[]" and child = ?child and post = "[?mood]" and quantities = ?q
      and template = ?t and n = "''Cast''" and hdrs = ?hdrs, OF p b n(1) k n(2) u q]
  have e: "join [CHR 0x0A]
             (worksheet_lines ?after ?q
                (section_lines (worksheet_lines ?before ?q []) ''Cast'' [] ?q @
                 instances ?parent (effective_count ?parent ?q ''Parent'') ?q [] @
                 items_lines [] ?q [])) =
      join [CHR 0x0A]
     [''# Intro'', ''---'', ''# Title | '', [], [],
      ''# Cast'', ''---'', ''# Parent'', [],
      ''## Child'', ''### Name | '', ''## Child'', ''### Name | '', ''## Child'', ''### Name | '',
      ''## Child'', ''### Name | '', ''## Child'', ''### Name | '', ''## Mood | '', [],
      ''# End'', ''---'', ''# Done | '', []]"
    by code_simp
  have f: "items_lines [] ?q [''Parent''] @
           concat (map (instance_block ?child ?q [''Parent'']) [0..<5]) @
           items_lines [?mood] ?q [''Parent''] =
      [''## Child'', ''### Name | '', ''## Child'', ''### Name | '', ''## Child'', ''### Name | '',
       ''## Child'', ''### Name | '', ''## Child'', ''### Name | '', ''## Mood | '']"
    by code_simp
  have first: "parse_llm_md ?t None ?q =
      Inr (join [CHR 0x0A]
     [''# Intro'', ''---'', ''# Title | '', [], [],
      ''# Cast'', ''---'', ''# Parent'', [],
      ''## Child'', ''### Name | '', ''## Child'', ''### Name | '', ''## Child'', ''### Name | '',
      ''## Child'', ''### Name | '', ''## Child'', ''### Name | '', ''## Mood | '', [],
      ''# End'', ''---'', ''# Done | '', []])"
    using t[THEN conjunct1] unfolding e .
  have second: "children_lines ?parent ?q [] =
      [''## Child'', ''### Name | '', ''## Child'', ''### Name | '', ''## Child'', ''### Name | '',
       ''## Child'', ''### Name | '', ''## Child'', ''### Name | '', ''## Mood | '']"
    using t[THEN conjunct2, THEN conjunct2] unfolding f .
  from first second show ?thesis
    by (intro conjI)
qed

section \<open>Headers generated outside a worksheet section\<close>

text \<open>
  The branch of line 149 generates a header as it stands, with the empty path and with
  the children list it was parsed with, which is empty: no hierarchy is built for the
  headers of a template without section lines, nor for the content of the section chosen
  by the \<open>section\<close> argument, which reaches \<open>_generate_worksheet\<close> as a list of
  headers. A record that its level nests under another is then generated as a record of
  its own, under the key of its own name alone, unlike in the branch of a worksheet
  section: for the same template the override for \<open>Parent.Child\<close> gives five
  \<open>Child\<close> blocks in the whole worksheet and is not looked up when the section is
  asked for, and a record under a \<open>[0]\<close> record is emitted.
\<close>

lemma direct_headers_flat:
  "generate_worksheet (map HeaderItem hs) q = join [CHR 0x0A] (items_lines hs q [])"
proof -
  have "worksheet_lines (map HeaderItem hs) q r = r @ items_lines hs q []" for r
    by (induction hs arbitrary: r)
       (simp_all add: worksheet_lines_def item_lines_def items_lines_def)
  then show ?thesis
    by (simp add: generate_worksheet_lines)
qed

lemma selected_section_flat:
  "parse_llm_md
     (''- Cast'' @ [CHR 0x0A] @ ''# Parent'' @ [CHR 0x0A] @ ''## Child [*]'' @ [CHR 0x0A] @
      ''### Name [1] $'')
     (Some ''Cast'') (Map.empty(''Parent.Child'' \<mapsto> 5)) =
   Inr (join [CHR 0x0A]
     [''# Parent | '', [], ''## Child | '', ''## Child | '', ''### Name | '']) \<and>
   parse_llm_md
     (''- Cast'' @ [CHR 0x0A] @ ''# Parent'' @ [CHR 0x0A] @ ''## Child [*]'' @ [CHR 0x0A] @
      ''### Name [1] $'')
     None (Map.empty(''Parent.Child'' \<mapsto> 5)) =
   Inr (join [CHR 0x0A]
     [''# Cast'', ''---'', ''# Parent'', [],
      ''## Child'', ''### Name | '', ''## Child'', ''### Name | '', ''## Child'', ''### Name | '',
      ''## Child'', ''### Name | '', ''## Child'', ''### Name | '']) \<and>
   parse_llm_md
     (''# Parent'' @ [CHR 0x0A] @ ''## Child [*]'' @ [CHR 0x0A] @ ''### Name'')
     None (Map.empty(''Parent.Child'' \<mapsto> 5)) =
   Inr (join [CHR 0x0A]
     [''# Parent | '', [], ''## Child | '', ''## Child | '', ''### Name | '']) \<and>
   parse_llm_md (''# Draft [0]'' @ [CHR 0x0A] @ ''## Idea [1] $'') None Map.empty =
   Inr ''## Idea | ''"
  by code_simp

section \<open>Claims about errors\<close>

lemma startswith_hash: "startswith ''#'' s \<Longrightarrow> s \<noteq> [] \<and> \<not> startswith ''- '' s"
  by (cases s) (auto simp: startswith_def)

lemma parse_template_lines_fails:
  assumes "l \<in> set ls" and "startswith ''#'' (strip l)"
    and "parse_header_line (strip l) = Inl e0"
  shows "\<exists>e. parse_template_lines ls st cur = Inl e"
  using assms(1)
proof (induction ls arbitrary: st cur)
  case Nil
  then show ?case by simp
next
  case (Cons x ls)
  show ?case
  proof (cases "x = l")
    case True
    then show ?thesis
      using assms(2,3) startswith_hash[OF assms(2)] by (simp add: Let_def)
  next
    case False
    with Cons.prems have "l \<in> set ls" by simp
    then have "\<exists>e. parse_template_lines ls s c = Inl e" for s c
      by (rule Cons.IH)
    then show ?thesis
      by (simp add: Let_def split: sum.splits option.splits)
  qed
qed

lemma contains_self: "contains s s"
  by (cases s) (simp_all add: startswith_def)

lemma contains_suffix: "contains s (p @ s)"
  by (induction p) (simp_all add: contains_self)

text \<open>
  Claim C6, at an input where the code departs from it. The template \<open>- Notes\<close>
  declares the worksheet section \<open>Notes\<close>, with no header in it. Asking for that
  section raises the error that reports it as not found, because the test
  \<open>if not section_structure\<close> also holds for the empty content list.
\<close>

theorem empty_section_reported_missing:
  "parse_template_structure (split_on (CHR 0x0A) (strip ''- Notes'')) =
     Inr [WorksheetSection ''Notes'' []] \<and>
   find_section_structure [WorksheetSection ''Notes'' []] ''Notes'' = Some [] \<and>
   parse_llm_md ''- Notes'' (Some ''Notes'') Map.empty = Inl (SectionNotFound ''Notes'')"
  by code_simp

text \<open>\<open>int\<close> on a string of digits: only the length can make it fail.\<close>

lemma digit_char_plain:
  assumes "isdigit_char c"
  shows "\<not> int_space c" "c \<noteq> CHR ''-''" "c \<noteq> CHR ''+''" "c \<noteq> CHR ''_''"
  using assms by (auto simp: isdigit_char_def int_space_def)

lemma digit_groups_digits: "xs \<noteq> [] \<Longrightarrow> list_all isdigit_char xs \<Longrightarrow> digit_groups xs"
  by (induction xs rule: digit_groups.induct) (auto dest: digit_char_plain(4))

lemma py_int_digits:
  assumes "isdigit b"
  shows "py_int b =
         (if max_str_digits < length b then Inl (IntDigitsLimit (length b))
          else Inr (int (digits_value b)))"
proof -
  from assms have ne: "b \<noteq> []" and all: "list_all isdigit_char b"
    by (simp_all add: isdigit_def)
  then have ends: "isdigit_char (hd b)" "isdigit_char (last b)"
    by (simp_all add: list_all_iff)
  have "dropWhile int_space b = b"
    using ne ends(1) by (simp add: dropWhile_eq_self_iff digit_char_plain(1))
  moreover have "dropWhile int_space (rev b) = rev b"
    using ne ends(2) by (simp add: dropWhile_eq_self_iff hd_rev digit_char_plain(1))
  ultimately have t: "rev (dropWhile int_space (rev (dropWhile int_space b))) = b"
    by simp
  have sign: "\<not> (b \<noteq> [] \<and> (hd b = CHR ''-'' \<or> hd b = CHR ''+''))" "\<not> (b \<noteq> [] \<and> hd b = CHR ''-'')"
    using digit_char_plain(2,3)[OF ends(1)] by simp_all
  have run: "takeWhile (\<lambda>c. isdigit_char c \<or> c = CHR ''_'') b = b"
    using all by (simp add: takeWhile_eq_all_conv list_all_iff)
  have digits: "filter (\<lambda>c. c \<noteq> CHR ''_'') b = b"
    using all by (simp add: filter_id_conv list_all_iff) (metis digit_char_plain(4))
  show ?thesis
    unfolding py_int_def Let_def t if_not_P[OF sign(1)] if_not_P[OF sign(2)] run digits
    using digit_groups_digits[OF ne all] by simp
qed

text \<open>
  \<open>int\<close> at some literals: what it skips, the sign, the grouping, and the separator
  0x1D that \<open>str.strip()\<close> removes and \<open>int\<close> does not.
\<close>

lemma py_int_examples:
  "py_int ''12'' = Inr 12 \<and> py_int '' -1_0 '' = Inr (- 10) \<and> py_int ''+7'' = Inr 7 \<and>
   py_int ([CHR 0x0B] @ ''3'' @ [CHR 0x09]) = Inr 3 \<and>
   py_int ([CHR 0x1D] @ ''3'') = Inl (IntLiteralError ([CHR 0x1D] @ ''3'')) \<and>
   py_int ''1__0'' = Inl (IntLiteralError ''1__0'') \<and>
   py_int ''1_'' = Inl (IntLiteralError ''1_'') \<and>
   py_int ''_1'' = Inl (IntLiteralError ''_1'') \<and>
   py_int ''- 1'' = Inl (IntLiteralError ''- 1'') \<and>
   py_int ''1x'' = Inl (IntLiteralError ''1x'') \<and>
   py_int [] = Inl (IntLiteralError [])"
  by code_simp

text \<open>A count of 4301 digits is refused, whatever the digits.\<close>

lemma long_count_refused:
  assumes "length ds = 4301" and "list_all isdigit_char ds"
  shows "parse_cardinality (''['' @ ds @ '']'') = Inl (IntDigitsLimit 4301)"
proof -
  from assms have ne: "ds \<noteq> []"
    by auto
  with assms(2) have ends: "isdigit_char (hd ds)" "isdigit_char (last ds)"
    by (simp_all add: list_all_iff)
  have inner: "c \<notin> set ''[]''" if "isdigit_char c" for c
    using that by (auto simp: isdigit_char_def)
  have "dropWhile (\<lambda>c. c \<in> set ''[]'') (''['' @ ds @ '']'') = ds @ '']''"
    using ne inner[OF ends(1)] by (cases ds) simp_all
  moreover have "dropWhile (\<lambda>c. c \<in> set ''[]'') (rev (ds @ '']'')) = rev ds"
    using ne inner[OF ends(2)] by (cases ds rule: rev_cases) simp_all
  ultimately have body: "strip_chars ''[]'' (''['' @ ds @ '']'') = ds"
    by (simp add: strip_chars_def)
  have digits: "isdigit ds"
    using ne assms(2) by (simp add: isdigit_def)
  then have "ds \<noteq> ''*''"
    using assms(1) by auto
  then show ?thesis
    unfolding parse_cardinality_def Let_def body
    using digits assms(1) by (simp add: py_int_digits max_str_digits_def)
qed

text \<open>
  Claim C7 as stated fails twice. The error raised for \<open>### Field [abc]\<close> carries the
  bracket body only, so its message does not contain the raw line; and a bracket body
  that is not of the form digits-digits, such as \<open> 1 - 2 \<close>, is accepted when
  \<open>int\<close> reads both parts.
\<close>

theorem cardinality_error_counterexample:
  "parse_llm_md ''### Field [abc]'' None Map.empty = Inl (InvalidCardinalityFormat ''abc'') \<and>
   message (InvalidCardinalityFormat ''abc'') = ''Invalid cardinality format: abc'' \<and>
   \<not> contains ''### Field [abc]'' (message (InvalidCardinalityFormat ''abc'')) \<and>
   parse_llm_md ''### Field [ 1 - 2 ]'' None Map.empty = Inr ''### Field | ''"
  by code_simp

text \<open>
  Claim C7, as the code has it. Let a line of the template be a header line that matches
  the grammar with a cardinality bracket, and let \<open>b\<close> be the bracket with its
  brackets stripped. The line is rejected exactly when \<open>b\<close> is not \<open>*\<close> and
  either is made of digits only but of more digits than \<open>int\<close> converts, or is not
  made of digits only and does not split at \<open>-\<close> into two parts that \<open>int\<close>
  accepts; a rejected line makes the whole call fail. When \<open>b\<close> has no \<open>-\<close> the error is
  \<open>Invalid cardinality format: b\<close>: it carries the bracket body. The raw line is
  carried by the error of a line that fails the grammar.
\<close>

theorem malformed_cardinality_raises:
  assumes "l \<in> set (split_on (CHR 0x0A) (strip template))"
    and "startswith ''#'' (strip l)"
    and "header_match (strip (drop (length (takeWhile (\<lambda>c. c = CHR ''#'') (strip l))) (strip l)))
           = Some (g1, Some bracket, g3, g4)"
    and "b = strip_chars ''[]'' bracket"
  shows "((\<exists>e. parse_header_line (strip l) = Inl e) \<longleftrightarrow>
            b \<noteq> ''*'' \<and>
            (if isdigit b then max_str_digits < length b
             else \<not> (\<exists>x y mn mx. split_on CHR ''-'' b = [x, y] \<and>
                                   py_int x = Inr mn \<and> py_int y = Inr mx))) \<and>
         ((\<exists>e. parse_header_line (strip l) = Inl e) \<longrightarrow>
            (\<exists>e. parse_llm_md template sect quantities = Inl e)) \<and>
         (b \<noteq> ''*'' \<and> \<not> isdigit b \<and> CHR ''-'' \<notin> set b \<longrightarrow>
            parse_header_line (strip l) = Inl (InvalidCardinalityFormat b) \<and>
            message (InvalidCardinalityFormat b) = ''Invalid cardinality format: '' @ b) \<and>
         (header_match (strip (drop (length (takeWhile (\<lambda>c. c = CHR ''#'') other)) other)) = None \<longrightarrow>
            parse_header_line other = Inl (InvalidHeaderFormat other) \<and>
            contains other (message (InvalidHeaderFormat other)))"
proof -
  have line: "parse_header_line (strip l) =
      (case parse_cardinality bracket of Inl e \<Rightarrow> Inl e
       | Inr crd \<Rightarrow> Inr (Header (length (takeWhile (\<lambda>c. c = CHR ''#'') (strip l))) (strip g1) crd g3
                         (case g4 of Some n \<Rightarrow> n | None \<Rightarrow> []) []))"
    using assms(3) by (simp add: parse_header_line_def Let_def)
  have no_dash: "split_on CHR ''-'' s = [s]" if "CHR ''-'' \<notin> set s" for s
    using that by (induction s) auto
  have card: "(\<exists>e. parse_cardinality bracket = Inl e) \<longleftrightarrow>
            b \<noteq> ''*'' \<and>
            (if isdigit b then max_str_digits < length b
             else \<not> (\<exists>x y mn mx. split_on CHR ''-'' b = [x, y] \<and>
                                   py_int x = Inr mn \<and> py_int y = Inr mx))"
  proof (cases "isdigit b")
    case True
    then have "b \<noteq> ''*''"
      by (auto simp: isdigit_def isdigit_char_def)
    with True show ?thesis
      unfolding parse_cardinality_def Let_def assms(4)[symmetric]
      by (simp add: py_int_digits)
  next
    case False
    then show ?thesis
      unfolding parse_cardinality_def Let_def assms(4)[symmetric]
      by (auto simp: no_dash split: list.splits sum.splits)
  qed
  have "(\<exists>e. parse_header_line (strip l) = Inl e) \<longleftrightarrow> (\<exists>e. parse_cardinality bracket = Inl e)"
    unfolding line by (auto split: sum.splits)
  with card have c1: "(\<exists>e. parse_header_line (strip l) = Inl e) \<longleftrightarrow>
            b \<noteq> ''*'' \<and>
            (if isdigit b then max_str_digits < length b
             else \<not> (\<exists>x y mn mx. split_on CHR ''-'' b = [x, y] \<and>
                                   py_int x = Inr mn \<and> py_int y = Inr mx))"
    by simp
  have "\<exists>e. parse_llm_md template sect quantities = Inl e"
    if "parse_header_line (strip l) = Inl e0" for e0
    using parse_template_lines_fails[OF assms(1,2) that, of "[]" None]
    by (auto simp: parse_llm_md_def parse_template_structure_def Let_def)
  then have c2: "(\<exists>e. parse_header_line (strip l) = Inl e) \<longrightarrow>
            (\<exists>e. parse_llm_md template sect quantities = Inl e)"
    by blast
  have c3: "b \<noteq> ''*'' \<and> \<not> isdigit b \<and> CHR ''-'' \<notin> set b \<longrightarrow>
            parse_header_line (strip l) = Inl (InvalidCardinalityFormat b) \<and>
            message (InvalidCardinalityFormat b) = ''Invalid cardinality format: '' @ b"
    unfolding line by (simp add: parse_cardinality_def assms(4)[symmetric])
  have "contains other (message (InvalidHeaderFormat other))"
    unfolding message.simps by (rule contains_suffix)
  then have c4: "header_match (strip (drop (length (takeWhile (\<lambda>c. c = CHR ''#'') other)) other)) = None \<longrightarrow>
            parse_header_line other = Inl (InvalidHeaderFormat other) \<and>
            contains other (message (InvalidHeaderFormat other))"
    by (simp add: parse_header_line_def Let_def)
  from c1 c2 c3 c4 show ?thesis
    by blast
qed

theorem malformed_cardinality_raises_witness:
  "parse_header_line ''### Field [abc]'' = Inl (InvalidCardinalityFormat ''abc'') \<and>
   message (InvalidCardinalityFormat ''abc'') = ''Invalid cardinality format: abc'' \<and>
   (\<exists>e. parse_llm_md ''### Field [abc]'' (Some ''Plot'') Map.empty = Inl e) \<and>
   (\<exists>e. parse_header_line ''### Field [2-]'' = Inl e) \<and>
   (\<exists>e. parse_llm_md ''### Field [2-]'' None Map.empty = Inl e) \<and>
   (\<exists>e. parse_header_line (''## B [2-'' @ [CHR 0x1D] @ ''3]'') = Inl e) \<and>
   parse_header_line ''### Field [abc'' = Inl (InvalidHeaderFormat ''### Field [abc'') \<and>
   contains ''### Field [abc'' (message (InvalidHeaderFormat ''### Field [abc''))"
proof -
  let ?a = "''### Field [abc]''" and ?d = "''### Field [2-]''" and ?o = "''### Field [abc''"
  have a1: "?a \<in> set (split_on (CHR 0x0A) (strip ?a))"
    by code_simp
  have a2: "startswith ''#'' (strip ?a)"
    by code_simp
  have a3: "header_match (strip (drop (length (takeWhile (\<lambda>c. c = CHR ''#'') (strip ?a))) (strip ?a)))
      = Some (''Field'', Some ''[abc]'', False, None)"
    by code_simp
  have a4: "''abc'' = strip_chars ''[]'' ''[abc]''"
    by code_simp
  have a5: "''abc'' \<noteq> ''*'' \<and> \<not> isdigit ''abc'' \<and> CHR ''-'' \<notin> set ''abc''"
    by code_simp
  have a6: "strip ?a = ?a"
    by code_simp
  have o1: "header_match (strip (drop (length (takeWhile (\<lambda>c. c = CHR ''#'') ?o)) ?o)) = None"
    by code_simp
  have d1: "?d \<in> set (split_on (CHR 0x0A) (strip ?d))"
    by code_simp
  have d2: "startswith ''#'' (strip ?d)"
    by code_simp
  have d3: "header_match (strip (drop (length (takeWhile (\<lambda>c. c = CHR ''#'') (strip ?d))) (strip ?d)))
      = Some (''Field'', Some ''[2-]'', False, None)"
    by code_simp
  have d4: "''2-'' = strip_chars ''[]'' ''[2-]''"
    by code_simp
  have d5: "''2-'' \<noteq> ''*'' \<and> \<not> isdigit ''2-''"
    by code_simp
  have d6: "split_on CHR ''-'' ''2-'' = [''2'', ''''] \<and> py_int '''' = Inl (IntLiteralError '''')"
    by code_simp
  have d7: "strip ?d = ?d"
    by code_simp
  have d8: "\<not> (\<exists>x y mn mx. split_on CHR ''-'' ''2-'' = [x, y] \<and> py_int x = Inr mn \<and> py_int y = Inr mx)"
    using d6 by auto
  let ?g = "''## B [2-'' @ [CHR 0x1D] @ ''3]''"
  have g1: "?g \<in> set (split_on (CHR 0x0A) (strip ?g))"
    by code_simp
  have g2: "startswith ''#'' (strip ?g)"
    by code_simp
  have g3: "header_match (strip (drop (length (takeWhile (\<lambda>c. c = CHR ''#'') (strip ?g))) (strip ?g)))
      = Some (''B'', Some (''[2-'' @ [CHR 0x1D] @ ''3]''), False, None)"
    by code_simp
  have g4: "''2-'' @ [CHR 0x1D] @ ''3'' = strip_chars ''[]'' (''[2-'' @ [CHR 0x1D] @ ''3]'')"
    by code_simp
  have g5: "''2-'' @ [CHR 0x1D] @ ''3'' \<noteq> ''*'' \<and> \<not> isdigit (''2-'' @ [CHR 0x1D] @ ''3'')"
    by code_simp
  have g6: "split_on CHR ''-'' (''2-'' @ [CHR 0x1D] @ ''3'') = [''2'', [CHR 0x1D] @ ''3''] \<and>
      py_int ([CHR 0x1D] @ ''3'') = Inl (IntLiteralError ([CHR 0x1D] @ ''3''))"
    by code_simp
  have g7: "strip ?g = ?g"
    by code_simp
  have g8: "\<not> (\<exists>x y mn mx. split_on CHR ''-'' (''2-'' @ [CHR 0x1D] @ ''3'') = [x, y] \<and>
      py_int x = Inr mn \<and> py_int y = Inr mx)"
    using g6 by auto
  note tg = malformed_cardinality_raises[OF g1 g2 g3 g4, where other = ?o
      and sect = None and quantities = Map.empty]
  note ta = malformed_cardinality_raises[OF a1 a2 a3 a4, where other = ?o
      and sect = "Some ''Plot''" and quantities = Map.empty]
  note td = malformed_cardinality_raises[OF d1 d2 d3 d4, where other = ?o
      and sect = None and quantities = Map.empty]
  from ta a5 a6 o1 td d5 d7 d8 tg g5 g7 g8 show ?thesis
    by simp
qed

section \<open>Claims about the hierarchy builder\<close>

lemma first_below_None:
  "(case filter (\<lambda>j. lv j < (L::nat)) (rev [0..<i]) of [] \<Rightarrow> None | j # _ \<Rightarrow> Some j) = None
   \<longleftrightarrow> (\<forall>j<i. L \<le> lv j)"
  by (induction i) (auto simp: less_Suc_eq)

lemma first_below_Some:
  "(case filter (\<lambda>j. lv j < (L::nat)) (rev [0..<i]) of [] \<Rightarrow> None | j # _ \<Rightarrow> Some j) = Some p
   \<longleftrightarrow> p < i \<and> lv p < L \<and> (\<forall>j. p < j \<and> j < i \<longrightarrow> L \<le> lv j)"
proof (induction i)
  case 0
  then show ?case by simp
next
  case (Suc i)
  show ?case
  proof (cases "lv i < L")
    case True
    then show ?thesis
      by (auto simp: less_Suc_eq not_le)
  next
    case False
    then show ?thesis
      using Suc by (auto simp: less_Suc_eq not_le)
  qed
qed

lemma nearest_smaller_None:
  "nearest_smaller xs i = None \<longleftrightarrow> (\<forall>j<i. level (xs ! i) \<le> level (xs ! j))"
  unfolding nearest_smaller_def by (rule first_below_None)

lemma nearest_smaller_Some:
  "nearest_smaller xs i = Some p \<longleftrightarrow>
   p < i \<and> level (xs ! p) < level (xs ! i) \<and>
   (\<forall>j. p < j \<and> j < i \<longrightarrow> level (xs ! i) \<le> level (xs ! j))"
  unfolding nearest_smaller_def by (rule first_below_Some)

lemma pop_stack_chain:
  assumes "stack_chain xs stk"
    and "case stk of [] \<Rightarrow> (\<forall>j<k. L \<le> level (xs ! j))
         | t # _ \<Rightarrow> t < k \<and> (\<forall>j. t < j \<and> j < k \<longrightarrow> L \<le> level (xs ! j))"
  shows "stack_chain xs (pop_stack xs L stk) \<and>
         (case pop_stack xs L stk of
            [] \<Rightarrow> (\<forall>j<k. L \<le> level (xs ! j))
          | p # _ \<Rightarrow> p < k \<and> level (xs ! p) < L \<and>
                     (\<forall>j. p < j \<and> j < k \<longrightarrow> L \<le> level (xs ! j)))"
  using assms
proof (induction xs stk rule: stack_chain.induct)
  case (1 xs)
  then show ?case by simp
next
  case (2 xs t)
  show ?case
  proof (cases "L \<le> level (xs ! t)")
    case True
    have "L \<le> level (xs ! j)" if "j < k" for j
    proof -
      consider "j < t" | "j = t" | "t < j" by linarith
      then show ?thesis
      proof cases
        case 1
        with 2 True show ?thesis
          by (auto simp: nearest_smaller_None dest: le_trans)
      next
        case 2
        with True show ?thesis by simp
      next
        case 3
        with "2.prems" that show ?thesis by simp
      qed
    qed
    with True show ?thesis by simp
  next
    case False
    with 2 show ?thesis by simp
  qed
next
  case (3 xs t u r)
  show ?case
  proof (cases "L \<le> level (xs ! t)")
    case True
    from "3.prems" have link: "nearest_smaller xs t = Some u" and rest: "stack_chain xs (u # r)"
      by simp_all
    from link have ut: "u < t" and gap: "\<And>j. u < j \<Longrightarrow> j < t \<Longrightarrow> level (xs ! t) \<le> level (xs ! j)"
      by (simp_all add: nearest_smaller_Some)
    have "L \<le> level (xs ! j)" if "u < j" "j < k" for j
    proof -
      consider "j < t" | "j = t" | "t < j" by linarith
      then show ?thesis
      proof cases
        case 1
        with gap[OF that(1)] True show ?thesis by simp
      next
        case 2
        with True show ?thesis by simp
      next
        case 3
        with "3.prems" that show ?thesis by simp
      qed
    qed
    moreover from "3.prems" ut have "u < k" by simp
    ultimately have "case u # r of [] \<Rightarrow> (\<forall>j<k. L \<le> level (xs ! j))
         | t # _ \<Rightarrow> t < k \<and> (\<forall>j. t < j \<and> j < k \<longrightarrow> L \<le> level (xs ! j))"
      by simp
    from "3.IH"[OF rest this] True show ?thesis by simp
  next
    case False
    with 3 show ?thesis by simp
  qed
qed

lemma hierarchy_step_inv:
  assumes "hierarchy_inv xs k s" and "k < length xs"
  shows "hierarchy_inv xs (Suc k) (hierarchy_step xs s k)"
proof -
  let ?L = "level (xs ! k)"
  let ?stk = "pop_stack xs ?L (stack s)"
  from assms(1) have roots: "root_items s = filter (\<lambda>i. nearest_smaller xs i = None) [0..<k]"
    and len: "length (kids s) = length xs"
    and ks: "\<And>p. p < length xs \<Longrightarrow>
               kids s ! p = filter (\<lambda>i. nearest_smaller xs i = Some p) [0..<k]"
    and chain: "stack_chain xs (stack s)"
    and top: "case stack s of [] \<Rightarrow> k = 0 | t # _ \<Rightarrow> Suc t = k"
    by (simp_all add: hierarchy_inv_def)
  from top have "case stack s of [] \<Rightarrow> (\<forall>j<k. ?L \<le> level (xs ! j))
         | t # _ \<Rightarrow> t < k \<and> (\<forall>j. t < j \<and> j < k \<longrightarrow> ?L \<le> level (xs ! j))"
    by (auto split: list.splits)
  from pop_stack_chain[OF chain this]
  have chain': "stack_chain xs ?stk"
    and found: "case ?stk of
            [] \<Rightarrow> (\<forall>j<k. ?L \<le> level (xs ! j))
          | p # _ \<Rightarrow> p < k \<and> level (xs ! p) < ?L \<and>
                     (\<forall>j. p < j \<and> j < k \<longrightarrow> ?L \<le> level (xs ! j))"
    by simp_all
  show ?thesis
  proof (cases ?stk)
    case Nil
    with found have ns: "nearest_smaller xs k = None"
      by (simp add: nearest_smaller_None)
    with Nil roots len ks show ?thesis
      by (simp add: hierarchy_inv_def hierarchy_step_def Let_def)
  next
    case (Cons p r)
    with found have ns: "nearest_smaller xs k = Some p" and pk: "p < k"
      by (simp_all add: nearest_smaller_Some)
    from pk assms(2) have pl: "p < length xs" by simp
    have "stack_chain xs (k # p # r)"
      using chain' Cons ns by simp
    moreover have "((kids s)[p := kids s ! p @ [k]]) ! q =
        filter (\<lambda>i. nearest_smaller xs i = Some q) [0..<Suc k]" if "q < length xs" for q
      using that ks[OF that] ns len pl by (cases "q = p") simp_all
    ultimately show ?thesis
      using Cons roots len ns
      by (simp add: hierarchy_inv_def hierarchy_step_def Let_def)
  qed
qed

lemma hierarchy_fold_inv:
  assumes "k \<le> length xs"
  shows "hierarchy_inv xs k
           (fold (\<lambda>i s. hierarchy_step xs s i) [0..<k]
              \<lparr>kids = replicate (length xs) [], root_items = [], stack = []\<rparr>)"
  using assms
proof (induction k)
  case 0
  then show ?case by (simp add: hierarchy_inv_def)
next
  case (Suc k)
  then show ?case
    by (simp add: hierarchy_step_inv)
qed

lemma hierarchy_store_inv: "hierarchy_inv xs (length xs) (hierarchy_store xs)"
  unfolding hierarchy_store_def by (rule hierarchy_fold_inv) simp



section \<open>Claims about the worksheet parser\<close>

lemma save_field_log:
  assumes "fields_follow_log st cur"
  shows "fields_follow_log (save_field st) (cur @ committed st)"
    and "sections (save_field st) = sections st"
    and "map_option title (current_section (save_field st)) = map_option title (current_section st)"
  using assms
  by (auto simp: fields_follow_log_def save_field_def committed_def
      split: option.splits)

lemma finish_sections:
  assumes "fields_follow_log st cur"
  shows "sections (finish st) t =
         (case map_of (closing_entry st cur) t of
            Some cs \<Rightarrow> Some (the (current_section (finish st)))
          | None \<Rightarrow> sections st t) \<and>
         (\<forall>cs. map_of (closing_entry st cur) t = Some cs \<longrightarrow>
            title (the (current_section (finish st))) = t \<and>
            field_values (the (current_section (finish st))) = map_of (rev cs))"
proof (cases "current_section st")
  case None
  then show ?thesis
    by (simp add: finish_def closing_entry_def)
next
  case (Some sec)
  from save_field_log[OF assms] Some
  obtain sec' where s': "current_section (save_field st) = Some sec'"
    and t': "title sec' = title sec"
    and f': "field_values sec' = map_of (rev (cur @ committed st))"
    and ss: "sections (save_field st) = sections st"
    by (auto simp: fields_follow_log_def split: option.splits)
  with Some show ?thesis
    by (auto simp: finish_def closing_entry_def finalize_section_def Let_def)
qed

lemma open_section_log:
  "sections (open_section st line nx) = sections (finish st)"
  "fields_follow_log (open_section st line nx) []"
  by (simp_all add: open_section_def finish_def Let_def fields_follow_log_def)

lemma field_header_log:
  assumes "fields_follow_log st cur"
  shows "fields_follow_log (field_header st line) (cur @ committed st)"
    and "sections (field_header st line) = sections st"
  using save_field_log(1,2)[OF assms]
  by (auto simp: field_header_def Let_def fields_follow_log_def split: option.splits)

lemma regular_header_log:
  assumes "fields_follow_log st cur"
  shows "fields_follow_log (regular_header st line) (cur @ committed st)"
    and "sections (regular_header st line) = sections st"
  using save_field_log(1,2)[OF assms] assms
  by (auto simp: regular_header_def Let_def fields_follow_log_def committed_def
      split: option.splits)

lemma content_line_log:
  assumes "fields_follow_log st cur"
  shows "fields_follow_log (content_line st line) cur"
    and "sections (content_line st line) = sections st"
  using assms
  by (auto simp: content_line_def Let_def fields_follow_log_def split: option.splits)

lemma scan_commit_log:
  assumes "fields_follow_log st cur"
  shows "case map_of (rev (commit_log ls st cur)) t of
           Some cs \<Rightarrow>
             (\<exists>sec. sections (finish (scan ls st)) t = Some sec \<and> title sec = t \<and>
                    field_values sec = map_of (rev cs))
         | None \<Rightarrow> sections (finish (scan ls st)) t = sections st t"
  using assms
proof (induction ls st arbitrary: cur rule: scan.induct)
  case (1 st)
  from finish_sections[OF 1, of t] show ?case
    by (auto simp: closing_entry_def split: option.splits)
next
  case (2 l rest st)
  let ?line = "strip l"
  show ?case
  proof (cases "section_start ?line rest")
    case True
    let ?st' = "open_section st ?line (hd rest)"
    let ?logs = "commit_log (tl rest) ?st' []"
    have ih: "case map_of (rev ?logs) t of
           Some cs \<Rightarrow>
             (\<exists>sec. sections (finish (scan (tl rest) ?st')) t = Some sec \<and> title sec = t \<and>
                    field_values sec = map_of (rev cs))
         | None \<Rightarrow> sections (finish (scan (tl rest) ?st')) t = sections ?st' t"
      using "2.IH"(1)[OF refl True open_section_log(2)] .
    have log: "map_of (rev (commit_log (l # rest) st cur)) t =
        (case map_of (rev ?logs) t of Some cs \<Rightarrow> Some cs
         | None \<Rightarrow> map_of (closing_entry st cur) t)"
      using True
      by (auto simp: Let_def map_add_def closing_entry_def split: option.splits)
    have sc: "scan (l # rest) st = scan (tl rest) ?st'"
      using True by (simp add: Let_def)
    show ?thesis
    proof (cases "map_of (rev ?logs) t")
      case (Some cs)
      with ih log sc show ?thesis by simp
    next
      case None
      with ih have "sections (finish (scan (tl rest) ?st')) t = sections (finish st) t"
        by (simp add: open_section_log(1))
      with finish_sections[OF "2.prems", of t] None log sc show ?thesis
        by (auto split: option.splits)
    qed
  next
    case False
    note not_start = False
    show ?thesis
    proof (cases "startswith ''#'' ?line \<and> endswith ''|'' ?line")
      case True
      have sc: "scan (l # rest) st = scan rest (field_header st ?line)"
        and lg: "commit_log (l # rest) st cur =
                 commit_log rest (field_header st ?line) (cur @ committed st)"
        using not_start True by (simp_all add: Let_def)
      from "2.IH"(2)[OF refl not_start True field_header_log(1)[OF "2.prems"]]
      show ?thesis
        unfolding sc lg field_header_log(2)[OF "2.prems"] .
    next
      case False
      note not_field = False
      show ?thesis
      proof (cases "startswith ''#'' ?line")
        case True
        have sc: "scan (l # rest) st = scan rest (regular_header st ?line)"
          and lg: "commit_log (l # rest) st cur =
                   commit_log rest (regular_header st ?line) (cur @ committed st)"
          using not_start not_field True by (simp_all add: Let_def)
        from "2.IH"(3)[OF refl not_start not_field True regular_header_log(1)[OF "2.prems"]]
        show ?thesis
          unfolding sc lg regular_header_log(2)[OF "2.prems"] .
      next
        case False
        have sc: "scan (l # rest) st = scan rest (content_line st ?line)"
          and lg: "commit_log (l # rest) st cur = commit_log rest (content_line st ?line) cur"
          using not_start not_field False by (simp_all add: Let_def)
        from "2.IH"(4)[OF refl not_start not_field False content_line_log(1)[OF "2.prems"]]
        show ?thesis
          unfolding sc lg content_line_log(2)[OF "2.prems"] .
      qed
    qed
  qed
qed

lemma map_of_rev_last:
  assumes "xs = earlier @ (k, v) # later" and "k \<notin> fst ` set later"
  shows "map_of (rev xs) k = Some v"
proof -
  have "map_of (rev later) k = None"
    using assms(2) by (simp add: map_of_eq_None_iff)
  then show ?thesis
    using assms(1) by (simp add: map_add_def)
qed

text \<open>
  Claim C9. Take any worksheet text, a section of it that is the last one with its title
  (the one the result keeps), and a field name assigned during the lifetime of that
  section, any number of times. The fields mapping of the section in the result binds
  the name to the value of the last of these assignments.
\<close>

theorem last_commit_wins:
  assumes "commit_log (split_on (CHR 0x0A) (strip worksheet)) initial_state [] =
             earlier @ (t, cs) # later"
    and "t \<notin> fst ` set later"
    and "cs = pre @ (n, v) # post"
    and "n \<notin> fst ` set post"
  shows "\<exists>m sec. parse_worksheet_content worksheet None = AllSections m \<and>
                 m t = Some sec \<and> title sec = t \<and> field_values sec n = Some v \<and>
                 (t \<noteq> [] \<longrightarrow> parse_worksheet_content worksheet (Some t) = OneSection sec)"
proof -
  let ?lines = "split_on (CHR 0x0A) (strip worksheet)"
  let ?m = "sections (finish (scan ?lines initial_state))"
  have start: "fields_follow_log initial_state []"
    by (simp add: fields_follow_log_def initial_state_def)
  have "map_of (rev (commit_log ?lines initial_state [])) t = Some cs"
    using assms(1,2) by (rule map_of_rev_last)
  with scan_commit_log[OF start, of ?lines t]
  obtain sec where sec: "?m t = Some sec" "title sec = t" "field_values sec = map_of (rev cs)"
    by auto
  have "map_of (rev cs) n = Some v"
    using assms(3,4) by (rule map_of_rev_last)
  with sec have "field_values sec n = Some v"
    by simp
  moreover have "parse_worksheet_content worksheet None = AllSections ?m"
    by (simp add: parse_worksheet_content_def finish_def Let_def)
  moreover have "parse_worksheet_content worksheet (Some t) = OneSection sec" if "t \<noteq> []"
    using that sec(1) by (simp add: parse_worksheet_content_def finish_def Let_def)
  ultimately show ?thesis
    using sec by blast
qed

theorem last_commit_wins_witness:
  "commit_log
     (split_on (CHR 0x0A)
        (strip (''# Cast'' @ [CHR 0x0A] @ ''---'' @ [CHR 0x0A] @
                ''## Character'' @ [CHR 0x0A] @ ''### Name | '' @ [CHR 0x0A] @ ''Ada'' @ [CHR 0x0A] @
                ''## Character'' @ [CHR 0x0A] @ ''### Name | '' @ [CHR 0x0A] @ ''Grace'')))
     initial_state [] =
   [(''Cast'', [(''Name'', ''Ada''), (''Name'', ''Grace'')])] \<and>
   (\<exists>m sec. parse_worksheet_content
              (''# Cast'' @ [CHR 0x0A] @ ''---'' @ [CHR 0x0A] @
               ''## Character'' @ [CHR 0x0A] @ ''### Name | '' @ [CHR 0x0A] @ ''Ada'' @ [CHR 0x0A] @
               ''## Character'' @ [CHR 0x0A] @ ''### Name | '' @ [CHR 0x0A] @ ''Grace'')
              None = AllSections m \<and>
            m ''Cast'' = Some sec \<and> field_values sec ''Name'' = Some ''Grace'' \<and>
            parse_worksheet_content
              (''# Cast'' @ [CHR 0x0A] @ ''---'' @ [CHR 0x0A] @
               ''## Character'' @ [CHR 0x0A] @ ''### Name | '' @ [CHR 0x0A] @ ''Ada'' @ [CHR 0x0A] @
               ''## Character'' @ [CHR 0x0A] @ ''### Name | '' @ [CHR 0x0A] @ ''Grace'')
              (Some ''Cast'') = OneSection sec)"
proof -
  let ?w = "''# Cast'' @ [CHR 0x0A] @ ''---'' @ [CHR 0x0A] @
            ''## Character'' @ [CHR 0x0A] @ ''### Name | '' @ [CHR 0x0A] @ ''Ada'' @ [CHR 0x0A] @
            ''## Character'' @ [CHR 0x0A] @ ''### Name | '' @ [CHR 0x0A] @ ''Grace''"
  have log: "commit_log (split_on (CHR 0x0A) (strip ?w)) initial_state [] =
      [(''Cast'', [(''Name'', ''Ada''), (''Name'', ''Grace'')])]"
    by code_simp
  then have 1: "commit_log (split_on (CHR 0x0A) (strip ?w)) initial_state [] =
      [] @ (''Cast'', [(''Name'', ''Ada''), (''Name'', ''Grace'')]) # []"
    by simp
  have 2: "''Cast'' \<notin> fst ` set ([] :: (string \<times> (string \<times> string) list) list)"
    by simp
  have 3: "[(''Name'', ''Ada''), (''Name'', ''Grace'')] = [(''Name'', ''Ada'')] @ (''Name'', ''Grace'') # []"
    by simp
  have 4: "''Name'' \<notin> fst ` set ([] :: (string \<times> string) list)"
    by simp
  from last_commit_wins[OF 1 2 3 4] log show ?thesis
    by auto
qed

section \<open>Round trip of leaf fields\<close>

lemma strip_padded:
  assumes "list_all isspace a" and "list_all isspace b"
    and "s \<noteq> []" and "\<not> isspace (hd s)" and "\<not> isspace (last s)"
  shows "strip (a @ s @ b) = s"
proof -
  have front: "dropWhile isspace (a @ s @ b) = s @ b"
    using assms(1,3,4) by (cases s) (simp_all add: dropWhile_append2 list_all_iff)
  have "dropWhile isspace (rev b @ rev s) = dropWhile isspace (rev s)"
    using assms(2) by (intro dropWhile_append2) (simp add: list_all_iff)
  also have "\<dots> = rev s"
    using assms(3,5) by (simp add: dropWhile_eq_self_iff hd_rev)
  finally have "dropWhile isspace (rev b @ rev s) = rev s" .
  then show ?thesis
    by (simp add: strip_def front)
qed

lemma strip_clean:
  assumes "s \<noteq> []" and "\<not> isspace (hd s)" and "\<not> isspace (last s)"
  shows "strip s = s"
  using strip_padded[of "[]" "[]" s] assms by simp

lemma split_on_no_sep: "d \<notin> set x \<Longrightarrow> split_on d x = [x]"
  by (induction x) auto

lemma split_on_append: "d \<notin> set x \<Longrightarrow> split_on d (x @ d # r) = x # split_on d r"
  by (induction x) auto

lemma split_on_join:
  assumes "ls \<noteq> []" and "\<forall>l \<in> set ls. d \<notin> set l"
  shows "split_on d (join [d] ls) = ls"
  using assms
proof (induction "[d]" ls rule: join.induct)
  case 1
  then show ?case by simp
next
  case (2 x)
  then show ?case by (simp add: split_on_no_sep)
next
  case (3 x y ys)
  then show ?case by (simp add: split_on_append)
qed

lemma join_snoc: "xs \<noteq> [] \<Longrightarrow> join d (xs @ [y]) = join d xs @ d @ y"
  by (induction d xs rule: join.induct) auto

lemma join_append_two:
  assumes "xs \<noteq> []"
  shows "join d (xs @ [a @ b, []]) = join d (xs @ [a]) @ b @ d"
proof -
  have "join d ((xs @ [a @ b]) @ [[]]) = join d (xs @ [a @ b]) @ d @ []"
    by (rule join_snoc) simp
  then show ?thesis
    using assms by (simp add: join_snoc)
qed

lemma hd_join: "x \<noteq> [] \<Longrightarrow> hd (join d (x # xs)) = hd x"
  by (cases xs) simp_all

lemma join_not_empty: "x \<noteq> [] \<Longrightarrow> join d (x # xs) \<noteq> []"
  by (cases xs) simp_all

lemma join_ends_with_last: "xs \<noteq> [] \<Longrightarrow> \<exists>p. join d xs = p @ last xs"
proof (induction d xs rule: join.induct)
  case (3 sep x y ys)
  then obtain p where "join sep (y # ys) = p @ last (y # ys)"
    by auto
  then have "join sep (x # y # ys) = (x @ sep @ p) @ last (x # y # ys)"
    by simp
  then show ?case by blast
qed auto

lemma last_join: "xs \<noteq> [] \<Longrightarrow> last xs \<noteq> [] \<Longrightarrow> last (join d xs) = last (last xs)"
  using join_ends_with_last[of xs d] by auto

lemma first_nonspace:
  assumes "r \<noteq> []" and "\<not> isspace (last r)"
  shows "\<exists>c t. dropWhile isspace (r @ x) = c # t \<and> c \<in> set r"
proof -
  have in_r: "last r \<in> set r"
    using assms(1) by simp
  then have split: "dropWhile isspace (r @ x) = dropWhile isspace r @ x"
    using assms(2) by (intro dropWhile_append1)
  have "dropWhile isspace r \<noteq> []"
    using in_r assms(2) by (auto simp: dropWhile_eq_Nil_conv)
  then obtain c t where ct: "dropWhile isspace r = c # t"
    by (cases "dropWhile isspace r") auto
  then have "c \<in> set r"
    by (metis list.set_intros(1) set_dropWhileD)
  with split ct show ?thesis by simp
qed

lemma opt_cardinality_inside_name:
  assumes "r \<noteq> []" and "\<not> isspace (last r)" and "\<forall>c \<in> set r. c \<notin> set ''|[$''"
  shows "opt_cardinality (r @ x) = None"
proof -
  from first_nonspace[OF assms(1,2), of x]
  obtain c t where ct: "dropWhile isspace (r @ x) = c # t" and "c \<in> set r"
    by blast
  with assms(3) have c: "c \<noteq> CHR ''|''" "c \<noteq> CHR ''[''" "c \<noteq> CHR ''$''"
    by auto
  have no_notes: "opt_notes (r @ x) = None"
    using ct c by (simp add: opt_notes_def)
  have req: "opt_required (r @ x) = None"
    using ct c no_notes by (simp add: opt_required_def)
  show ?thesis
    using ct c req by (simp add: opt_cardinality_def)
qed

lemma opt_cardinality_leaf:
  "opt_cardinality '' [1] $'' = Some (Some ''[1]'', True, None)"
  by code_simp

lemma lazy_name_clean:
  assumes "r \<noteq> []" and "\<not> isspace (last r)" and "\<forall>c \<in> set r. c \<notin> set ''|[$''"
  shows "lazy_name acc (r @ '' [1] $'') = Some (acc @ r, Some ''[1]'', True, None)"
  using assms
proof (induction r arbitrary: acc)
  case Nil
  then show ?case by simp
next
  case (Cons c r)
  show ?case
  proof (cases "r = []")
    case True
    with Cons.prems show ?thesis
      using opt_cardinality_leaf by simp
  next
    case False
    with Cons.prems have "opt_cardinality (r @ '' [1] $'') = None"
      by (intro opt_cardinality_inside_name) auto
    moreover have "lazy_name (acc @ [c]) (r @ '' [1] $'') =
        Some ((acc @ [c]) @ r, Some ''[1]'', True, None)"
      using Cons.prems False by (intro Cons.IH) auto
    ultimately show ?thesis
      using Cons.prems by simp
  qed
qed

lemma clean_nameD:
  assumes "clean_name n"
  shows "n \<noteq> []" "\<not> isspace (hd n)" "\<not> isspace (last n)"
    "\<forall>c \<in> set n. c \<notin> set ''|[$''" "CHR 0x0A \<notin> set n"
  using assms by (auto simp: clean_name_def list_all_iff)

lemma parse_cardinality_one: "parse_cardinality ''[1]'' = Inr (Fixed 1)"
  by code_simp

lemma parse_header_leaf:
  assumes "clean_name n"
  shows "parse_header_line (''# '' @ n @ '' [1] $'') = Inr (Header 1 n (Fixed 1) True [] [])"
proof -
  note n = clean_nameD[OF assms]
  have "strip ('' '' @ (n @ '' [1] $'') @ []) = n @ '' [1] $''"
    using n(1,2) by (intro strip_padded) (simp_all add: isspace_def)
  then have content: "strip ((CHR '' '') # n @ '' [1] $'') = n @ '' [1] $''"
    by simp
  have m: "header_match (n @ '' [1] $'') = Some (n, Some ''[1]'', True, None)"
    unfolding header_match_def using lazy_name_clean[OF n(1,3,4), of "[]"] by simp
  have "strip n = n"
    using n(1-3) by (rule strip_clean)
  then show ?thesis
    by (simp add: parse_header_line_def Let_def content m parse_cardinality_one)
qed

lemma leaf_line_stripped:
  assumes "clean_name n"
  shows "strip (''# '' @ n @ '' [1] $'') = ''# '' @ n @ '' [1] $''"
  by (rule strip_clean) (simp_all add: isspace_def)

lemma parse_template_leaves:
  assumes "list_all clean_name ns"
  shows "parse_template_lines (map (\<lambda>n. ''# '' @ n @ '' [1] $'') ns)
           [WorksheetSection s acc] (Some 0) =
         Inr [WorksheetSection s (acc @ map (\<lambda>n. Header 1 n (Fixed 1) True [] []) ns)]"
  using assms
proof (induction ns arbitrary: acc)
  case Nil
  then show ?case by simp
next
  case (Cons n ns)
  then have n: "clean_name n" and ns: "list_all clean_name ns"
    by simp_all
  have line: "strip (''# '' @ n @ '' [1] $'') = ''# '' @ n @ '' [1] $''"
    using n by (rule leaf_line_stripped)
  have "parse_template_lines ((''# '' @ n @ '' [1] $'') # map (\<lambda>n. ''# '' @ n @ '' [1] $'') ns)
           [WorksheetSection s acc] (Some 0) =
        parse_template_lines (map (\<lambda>n. ''# '' @ n @ '' [1] $'') ns)
           [WorksheetSection s (acc @ [Header 1 n (Fixed 1) True [] []])] (Some 0)"
    using parse_header_leaf[OF n] line
    by (simp add: Let_def startswith_def)
  with Cons.IH[OF ns, of "acc @ [Header 1 n (Fixed 1) True [] []]"] show ?case
    by simp
qed

lemma clean_titleD:
  assumes "clean_title s"
  shows "s \<noteq> []" "\<not> isspace (hd s)" "\<not> isspace (last s)" "CHR 0x0A \<notin> set s"
  using assms by (auto simp: clean_title_def)

lemma parse_leaf_template:
  assumes "clean_title s" and "list_all clean_name ns"
  shows "parse_template_structure (split_on (CHR 0x0A) (strip (leaf_template s ns))) =
         Inr [WorksheetSection s (map (\<lambda>n. Header 1 n (Fixed 1) True [] []) ns)]"
proof -
  note s = clean_titleD[OF assms(1)]
  let ?lines = "(''- '' @ s) # map (\<lambda>n. ''# '' @ n @ '' [1] $'') ns"
  have last_line: "last ?lines \<noteq> [] \<and> \<not> isspace (last (last ?lines))"
    using s(1,3) by (cases ns rule: rev_cases) (simp_all add: isspace_def)
  have "strip (leaf_template s ns) = leaf_template s ns"
    unfolding leaf_template_def
    using last_line
    by (intro strip_clean) (simp_all add: join_not_empty hd_join last_join isspace_def)
  moreover have "split_on (CHR 0x0A) (join [CHR 0x0A] ?lines) = ?lines"
    using s(4) assms(2) by (intro split_on_join) (auto simp: list_all_iff clean_name_def)
  moreover have "strip (''- '' @ s) = ''- '' @ s"
    using s(1,3) by (intro strip_clean) (simp_all add: isspace_def)
  moreover have "strip s = s"
    using s(1-3) by (rule strip_clean)
  ultimately show ?thesis
    using parse_template_leaves[OF assms(2), of s "[]"]
    by (simp add: parse_template_structure_def leaf_template_def Let_def startswith_def)
qed

lemma add_no_children: "add_children h [] = h"
  by (cases h) simp

lemma materialise_no_kids:
  assumes "\<forall>i < length xs. ks ! i = []"
  shows "materialise xs ks = xs"
proof -
  have "foldr (\<lambda>i built. built[i := add_children (xs ! i) (map (\<lambda>c. built ! c) (ks ! i))])
          idx xs = xs" if "\<forall>i \<in> set idx. i < length xs" for idx
    using that assms by (induction idx) (simp_all add: add_no_children)
  then show ?thesis
    by (simp add: materialise_def)
qed

lemma build_hierarchy_flat:
  assumes "\<forall>h \<in> set xs. level h = 1"
  shows "build_hierarchy xs = xs"
proof -
  have none: "nearest_smaller xs i = None" if "i < length xs" for i
    using that assms by (simp add: nearest_smaller_None)
  note inv = hierarchy_store_inv[of xs, unfolded hierarchy_inv_def]
  have "root_items (hierarchy_store xs) = [0..<length xs]"
    using inv none by (simp cong: filter_cong)
  moreover have "kids (hierarchy_store xs) ! p = []" if "p < length xs" for p
    using inv none that by (simp cong: filter_cong)
  ultimately show ?thesis
    by (simp add: build_hierarchy_def Let_def materialise_no_kids map_nth)
qed

lemma generate_worksheet_section:
  "generate_worksheet [WorksheetSection s hdrs] q =
   join [CHR 0x0A] ([''# '' @ s, ''---''] @ items_lines (build_hierarchy hdrs) q [])"
  by (simp add: generate_worksheet_def generate_items_lines del: join.simps)

lemma generate_leaf:
  "generate_item_output (Header 1 n (Fixed 1) True [] []) [] Map.empty [] =
   [''# '' @ n @ '' | '', []]"
  by (simp add: generate_item_output_lines effective_count_def instances_def leaf_line_def
      header_text_def blank_after_def)

lemma generate_leaf_template:
  assumes "clean_title s" and "list_all clean_name ns"
  shows "parse_llm_md (leaf_template s ns) None Map.empty =
         Inr (join [CHR 0x0A]
                ([''# '' @ s, ''---''] @ concat (map (\<lambda>n. [''# '' @ n @ '' | '', []]) ns)))"
proof -
  have "build_hierarchy (map (\<lambda>n. Header 1 n (Fixed 1) True [] []) ns) =
        map (\<lambda>n. Header 1 n (Fixed 1) True [] []) ns"
    by (rule build_hierarchy_flat) auto
  then show ?thesis
    unfolding parse_llm_md_def Let_def parse_leaf_template[OF assms] filter_content_structure_def
    by (simp add: generate_worksheet_section items_lines_def
        generate_leaf[unfolded One_nat_def] comp_def del: join.simps)
qed

lemma leaf_worksheet_body_Cons:
  "leaf_worksheet_body (n # ns) =
   (if ns = [] then [''# '' @ n @ '' |'']
    else (''# '' @ n @ '' | '') # [] # leaf_worksheet_body ns)"
  by (simp add: leaf_worksheet_body_def)

lemma leaf_worksheet_lines:
  assumes "clean_title s" and "list_all clean_name ns"
  shows "split_on (CHR 0x0A)
           (strip (join [CHR 0x0A]
              ([''# '' @ s, ''---''] @ concat (map (\<lambda>n. [''# '' @ n @ '' | '', []]) ns)))) =
         (''# '' @ s) # ''---'' # leaf_worksheet_body ns"
proof (cases ns rule: rev_cases)
  case Nil
  note s = clean_titleD[OF assms(1)]
  have "strip (''# '' @ s @ [CHR 0x0A] @ ''---'') = ''# '' @ s @ [CHR 0x0A] @ ''---''"
    by (intro strip_clean) (simp_all add: isspace_def)
  moreover have "split_on (CHR 0x0A) (join [CHR 0x0A] [''# '' @ s, ''---'']) = [''# '' @ s, ''---'']"
    using s(4) by (intro split_on_join) auto
  ultimately show ?thesis
    using Nil by (simp add: leaf_worksheet_body_def)
next
  case (snoc ns' nk)
  note s = clean_titleD[OF assms(1)]
  let ?front = "[''# '' @ s, ''---''] @ concat (map (\<lambda>n. [''# '' @ n @ '' | '', []]) ns')"
  let ?x = "join [CHR 0x0A] (?front @ [''# '' @ nk @ '' |''])"
  have names: "\<forall>n \<in> set ns'. CHR 0x0A \<notin> set n" and nk: "CHR 0x0A \<notin> set nk"
    using assms(2) snoc by (auto simp: list_all_iff clean_name_def)
  have "join [CHR 0x0A]
      ([''# '' @ s, ''---''] @ concat (map (\<lambda>n. [''# '' @ n @ '' | '', []]) ns)) =
      join [CHR 0x0A] (?front @ [(''# '' @ nk @ '' |'') @ '' '', []])"
    unfolding snoc by (simp del: join.simps)
  also have "\<dots> = ?x @ '' '' @ [CHR 0x0A]"
    by (rule join_append_two) simp
  finally have whole: "join [CHR 0x0A]
      ([''# '' @ s, ''---''] @ concat (map (\<lambda>n. [''# '' @ n @ '' | '', []]) ns)) =
      [] @ ?x @ ('' '' @ [CHR 0x0A])"
    by simp
  have x_shape: "?x = join [CHR 0x0A] ?front @ [CHR 0x0A] @ ''# '' @ nk @ '' |''"
    by (rule join_snoc) simp
  have "strip ([] @ ?x @ ('' '' @ [CHR 0x0A])) = ?x"
  proof (intro strip_padded)
    show "?x \<noteq> []"
      unfolding x_shape by simp
    have "hd ?x = CHR ''#''"
      by (simp add: hd_join del: join.simps)
    then show "\<not> isspace (hd ?x)"
      by (simp add: isspace_def)
    have "last ?x = CHR ''|''"
      unfolding x_shape by simp
    then show "\<not> isspace (last ?x)"
      by (simp add: isspace_def)
  qed (simp_all add: isspace_def)
  moreover have "split_on (CHR 0x0A) ?x = ?front @ [''# '' @ nk @ '' |'']"
    using s(4) names nk by (intro split_on_join) auto
  ultimately show ?thesis
    unfolding whole by (simp add: snoc leaf_worksheet_body_def del: join.simps)
qed

lemma field_tail_inside_name:
  assumes "r \<noteq> []" and "\<not> isspace (last r)" and "CHR ''|'' \<notin> set r"
  shows "\<not> field_tail (r @ x)"
proof -
  from first_nonspace[OF assms(1,2), of x]
  obtain c t where "dropWhile isspace (r @ x) = c # t" and "c \<in> set r"
    by blast
  with assms(3) show ?thesis
    by (auto simp: field_tail_def)
qed

lemma field_tail_end: "field_tail '' |''"
  by code_simp

lemma lazy_field_clean:
  assumes "r \<noteq> []" and "\<not> isspace (last r)" and "CHR ''|'' \<notin> set r"
  shows "lazy_field acc (r @ '' |'') = Some (acc @ r)"
  using assms
proof (induction r arbitrary: acc)
  case Nil
  then show ?case by simp
next
  case (Cons c r)
  show ?case
  proof (cases "r = []")
    case True
    then show ?thesis
      using field_tail_end by simp
  next
    case False
    with Cons.prems have "\<not> field_tail (r @ '' |'')"
      by (intro field_tail_inside_name) auto
    moreover have "lazy_field (acc @ [c]) (r @ '' |'') = Some ((acc @ [c]) @ r)"
      using Cons.prems False by (intro Cons.IH) auto
    ultimately show ?thesis by simp
  qed
qed

lemma field_match_leaf:
  assumes "clean_name n"
  shows "field_match (''# '' @ n @ '' |'') = Some n"
proof -
  note n = clean_nameD[OF assms]
  from n(4) have bar: "CHR ''|'' \<notin> set n"
    by auto
  from n(1) obtain c r where cr: "n = c # r"
    by (cases n) auto
  with n(2) have "greedy_space (n @ '' |'') = lazy_field [] (n @ '' |'')"
    by simp
  also have "\<dots> = Some n"
    using lazy_field_clean[OF n(1,3) bar, of "[]"] by simp
  finally have "greedy_space (n @ '' |'') = Some n" .
  then show ?thesis
    by (simp add: field_match_def isspace_def)
qed

lemma endswith_append: "endswith p (x @ p)"
  by (simp add: endswith_def)

lemma leaf_field_line:
  assumes "clean_name n"
  shows "strip (''# '' @ n @ '' | '') = ''# '' @ n @ '' |''"
    and "strip (''# '' @ n @ '' |'') = ''# '' @ n @ '' |''"
    and "startswith ''#'' (''# '' @ n @ '' |'')"
    and "endswith ''|'' (''# '' @ n @ '' |'')"
proof -
  have "strip ([] @ (''# '' @ n @ '' |'') @ '' '') = ''# '' @ n @ '' |''"
    by (intro strip_padded) (simp_all add: isspace_def)
  then show "strip (''# '' @ n @ '' | '') = ''# '' @ n @ '' |''"
    by simp
  show "strip (''# '' @ n @ '' |'') = ''# '' @ n @ '' |''"
    by (intro strip_clean) (simp_all add: isspace_def)
  show "startswith ''#'' (''# '' @ n @ '' |'')"
    by (simp add: startswith_def)
  have "endswith ''|'' ((''# '' @ n @ '' '') @ ''|'')"
    by (rule endswith_append)
  then show "endswith ''|'' (''# '' @ n @ '' |'')"
    by simp
qed

lemma strip_empty: "strip [] = []"
  by (simp add: strip_def)

lemma no_section_start:
  "rest = [] \<or> hd rest = [] \<Longrightarrow> \<not> section_start line rest"
  "\<not> section_start [] rest"
  by (auto simp: section_start_def strip_empty startswith_def)

lemma save_field_title:
  "map_option title (current_section (save_field st)) = map_option title (current_section st)"
  by (cases "current_section st") (auto simp: save_field_def split: option.splits)

lemma field_header_leaf:
  assumes "clean_name n" and "current_section st = Some sec"
  shows "current_field (field_header st (''# '' @ n @ '' |'')) = Some n"
    and "current_field_content (field_header st (''# '' @ n @ '' |'')) = []"
    and "\<exists>sec'. current_section (field_header st (''# '' @ n @ '' |'')) = Some sec' \<and>
               title sec' = title sec"
proof -
  note n = clean_nameD[OF assms(1)]
  have sn: "strip n = n"
    using n(1-3) by (rule strip_clean)
  show "current_field (field_header st (''# '' @ n @ '' |'')) = Some n"
    and "current_field_content (field_header st (''# '' @ n @ '' |'')) = []"
    by (simp_all add: field_header_def Let_def field_match_leaf[OF assms(1), simplified] sn)
  from save_field_title[of st] assms(2)
  obtain sec' where "current_section (save_field st) = Some sec'" "title sec' = title sec"
    by (cases "current_section (save_field st)") auto
  then show "\<exists>sec'. current_section (field_header st (''# '' @ n @ '' |'')) = Some sec' \<and>
               title sec' = title sec"
    by (simp add: field_header_def Let_def field_match_leaf[OF assms(1), simplified])
qed

lemma committed_blank:
  assumes "current_section st = Some sec" and "current_field st = Some n" and "n \<noteq> []"
    and "current_field_content st = [] \<or> current_field_content st = [[]]"
  shows "committed st = [(n, [])]"
  using assms by (auto simp: committed_def pending_commit_def strip_empty)

lemma commit_log_leaves:
  assumes "list_all clean_name ns" and "current_section st = Some sec"
  shows "commit_log (leaf_worksheet_body ns) st cur =
         [(title sec, cur @ committed st @ map (\<lambda>n. (n, [])) ns)]"
  using assms
proof (induction ns arbitrary: st cur sec)
  case Nil
  then show ?case
    by (simp add: leaf_worksheet_body_def closing_entry_def)
next
  case (Cons n ns)
  then have n: "clean_name n" and ns: "list_all clean_name ns"
    by simp_all
  note line = leaf_field_line[OF n]
  let ?l = "''# '' @ n @ '' |''"
  let ?st1 = "field_header st ?l"
  from field_header_leaf[OF n Cons.prems(2)]
  obtain sec1 where st1: "current_field ?st1 = Some n" "current_field_content ?st1 = []"
    "current_section ?st1 = Some sec1" "title sec1 = title sec"
    by blast
  have nonempty: "n \<noteq> []"
    using n by (simp add: clean_name_def)
  show ?case
  proof (cases "ns = []")
    case True
    have "commit_log [?l] st cur = closing_entry ?st1 (cur @ committed st)"
      using line no_section_start(1)[of "[]" ?l] by (simp add: Let_def)
    also have "\<dots> = [(title sec, cur @ committed st @ [(n, [])])]"
      using st1 committed_blank[OF st1(3,1) nonempty] by (simp add: closing_entry_def)
    finally show ?thesis
      using True by (simp add: leaf_worksheet_body_Cons)
  next
    case False
    let ?st2 = "content_line ?st1 []"
    have st2: "current_section ?st2 = Some sec1" "current_field ?st2 = Some n"
      "current_field_content ?st2 = [[]]"
      using st1 nonempty by (simp_all add: content_line_def Let_def)
    have first: "commit_log ((''# '' @ n @ '' | '') # [] # leaf_worksheet_body ns) st cur =
        commit_log ([] # leaf_worksheet_body ns) ?st1 (cur @ committed st)"
      using line no_section_start(1)[of "[] # leaf_worksheet_body ns" ?l]
      by (simp add: Let_def)
    have second: "commit_log ([] # leaf_worksheet_body ns) ?st1 (cur @ committed st) =
        commit_log (leaf_worksheet_body ns) ?st2 (cur @ committed st)"
      using no_section_start(2)[of "leaf_worksheet_body ns"]
      by (simp add: Let_def strip_empty startswith_def)
    have "commit_log (leaf_worksheet_body ns) ?st2 (cur @ committed st) =
        [(title sec1, (cur @ committed st) @ committed ?st2 @ map (\<lambda>n. (n, [])) ns)]"
      using ns st2(1) by (rule Cons.IH)
    with first second st1(4) committed_blank[OF st2(1,2) nonempty] st2(3) False show ?thesis
      by (simp add: leaf_worksheet_body_Cons)
  qed
qed

text \<open>
  Claim C1 as stated fails: the worksheet generated from leaf fields alone has no section
  header (a \<open>#\<close> line followed by \<open>---\<close>), and the worksheet parser stores fields
  only in an open section. For the template of the two leaves \<open>Title\<close> and \<open>Genre\<close>
  the parsed result is the empty dictionary: there is no fields mapping at all.
\<close>

theorem leaf_round_trip_counterexample:
  "parse_llm_md (''# Title [1] $'' @ [CHR 0x0A] @ ''# Genre [1] $'') None Map.empty =
     Inr (''# Title | '' @ [CHR 0x0A] @ [CHR 0x0A] @ ''# Genre | '' @ [CHR 0x0A]) \<and>
   parse_worksheet_content
     (''# Title | '' @ [CHR 0x0A] @ [CHR 0x0A] @ ''# Genre | '' @ [CHR 0x0A]) None =
     AllSections Map.empty"
proof -
  let ?w = "''# Title | '' @ [CHR 0x0A] @ [CHR 0x0A] @ ''# Genre | '' @ [CHR 0x0A]"
  let ?lines = "split_on (CHR 0x0A) (strip ?w)"
  have gen: "parse_llm_md (''# Title [1] $'' @ [CHR 0x0A] @ ''# Genre [1] $'') None Map.empty =
     Inr ?w"
    by code_simp
  have log: "commit_log ?lines initial_state [] = []"
    by code_simp
  have start: "fields_follow_log initial_state []"
    by (simp add: fields_follow_log_def initial_state_def)
  have "sections (finish (scan ?lines initial_state)) t = None" for t
    using scan_commit_log[OF start, of ?lines t] unfolding log
    by (simp add: initial_state_def)
  then have "sections (finish (scan ?lines initial_state)) = Map.empty"
    by (rule ext)
  then have "parse_worksheet_content ?w None = AllSections Map.empty"
    unfolding parse_worksheet_content_def Let_def finish_def by simp
  with gen show ?thesis
    by (rule conjI)
qed

text \<open>
  Claim C1, amended. When the leaf fields stand under a worksheet section, expanding the
  template without section and quantities and parsing the generated text gives, for
  that section, a fields mapping whose keys are exactly the leaf names, each bound to the
  empty string.
\<close>

theorem leaf_round_trip:
  assumes "clean_title s" and "list_all clean_name ns"
  shows "\<exists>w m sec. parse_llm_md (leaf_template s ns) None Map.empty = Inr w \<and>
           parse_worksheet_content w None = AllSections m \<and>
           m s = Some sec \<and> title sec = s \<and>
           dom (field_values sec) = set ns \<and>
           (\<forall>n \<in> set ns. field_values sec n = Some [])"
proof -
  note s = clean_titleD[OF assms(1)]
  let ?w = "join [CHR 0x0A]
              ([''# '' @ s, ''---''] @ concat (map (\<lambda>n. [''# '' @ n @ '' | '', []]) ns))"
  let ?lines = "(''# '' @ s) # ''---'' # leaf_worksheet_body ns"
  let ?cs = "map (\<lambda>n. (n, [])) ns :: (string \<times> string) list"
  let ?m = "sections (finish (scan ?lines initial_state))"
  have gen: "parse_llm_md (leaf_template s ns) None Map.empty = Inr ?w"
    using assms by (rule generate_leaf_template)
  have lines: "split_on (CHR 0x0A) (strip ?w) = ?lines"
    using assms by (rule leaf_worksheet_lines)
  have head: "strip (''# '' @ s) = ''# '' @ s"
    using s(1,3) by (intro strip_clean) (simp_all add: isspace_def)
  have rule: "strip ''---'' = ''---''"
    by code_simp
  have start: "section_start (''# '' @ s) (''---'' # leaf_worksheet_body ns)"
    by (simp add: section_start_def startswith_def rule)
  let ?st = "open_section initial_state (''# '' @ s) ''---''"
  have opened: "current_section ?st =
      Some \<lparr>title = s, content = [], field_values = Map.empty\<rparr>"
    using strip_clean[OF s(1-3)] by (simp add: open_section_def initial_state_def Let_def)
  have none: "committed ?st = []"
    by (simp add: committed_def pending_commit_def open_section_def Let_def)
  have "commit_log ?lines initial_state [] =
      closing_entry initial_state [] @ commit_log (leaf_worksheet_body ns) ?st []"
    using start head by (simp add: Let_def)
  also have "\<dots> = [(s, ?cs)]"
    using commit_log_leaves[OF assms(2) opened, of "[]"] none
    by (simp add: closing_entry_def initial_state_def)
  finally have log: "commit_log ?lines initial_state [] = [(s, ?cs)]" .
  have "fields_follow_log initial_state []"
    by (simp add: fields_follow_log_def initial_state_def)
  from scan_commit_log[OF this, of ?lines s] log
  obtain sec where sec: "?m s = Some sec" "title sec = s" "field_values sec = map_of (rev ?cs)"
    by auto
  have keys: "dom (field_values sec) = set ns"
    by (simp add: sec(3) dom_map_of_conv_image_fst image_image)
  have "field_values sec n = Some []" if "n \<in> set ns" for n
  proof -
    from that keys obtain v where v: "map_of (rev ?cs) n = Some v"
      unfolding sec(3) by blast
    then have "(n, v) \<in> set (rev ?cs)"
      by (rule map_of_SomeD)
    then have "v = []"
      by auto
    with v sec(3) show ?thesis by simp
  qed
  moreover have "parse_worksheet_content ?w None = AllSections ?m"
    unfolding parse_worksheet_content_def Let_def lines finish_def by simp
  ultimately show ?thesis
    using gen sec(1,2) keys by blast
qed

theorem leaf_round_trip_witness:
  "leaf_template ''Basics'' [''Title'', ''Genre''] =
     ''- Basics'' @ [CHR 0x0A] @ ''# Title [1] $'' @ [CHR 0x0A] @ ''# Genre [1] $'' \<and>
   parse_llm_md (leaf_template ''Basics'' [''Title'', ''Genre'']) None Map.empty =
     Inr (''# Basics'' @ [CHR 0x0A] @ ''---'' @ [CHR 0x0A] @ ''# Title | '' @ [CHR 0x0A] @
          [CHR 0x0A] @ ''# Genre | '' @ [CHR 0x0A]) \<and>
   (\<exists>m sec. parse_worksheet_content
              (''# Basics'' @ [CHR 0x0A] @ ''---'' @ [CHR 0x0A] @ ''# Title | '' @ [CHR 0x0A] @
               [CHR 0x0A] @ ''# Genre | '' @ [CHR 0x0A]) None = AllSections m \<and>
            m ''Basics'' = Some sec \<and>
            dom (field_values sec) = {''Title'', ''Genre''} \<and>
            field_values sec ''Title'' = Some [] \<and> field_values sec ''Genre'' = Some [])"
proof -
  have t: "leaf_template ''Basics'' [''Title'', ''Genre''] =
     ''- Basics'' @ [CHR 0x0A] @ ''# Title [1] $'' @ [CHR 0x0A] @ ''# Genre [1] $''"
    by code_simp
  have g: "parse_llm_md (leaf_template ''Basics'' [''Title'', ''Genre'']) None Map.empty =
     Inr (''# Basics'' @ [CHR 0x0A] @ ''---'' @ [CHR 0x0A] @ ''# Title | '' @ [CHR 0x0A] @
          [CHR 0x0A] @ ''# Genre | '' @ [CHR 0x0A])"
    by code_simp
  have c: "clean_title ''Basics''" "list_all clean_name [''Title'', ''Genre'']"
    by code_simp+
  from leaf_round_trip[OF c] g t show ?thesis
    by auto
qed

end
